theory Spec2Isabelle
  imports Complex_Main "HOL-Library.Sublist" "HOL-Library.Char_ord" "HOL-Library.List_Lexorder"
    "HOL-Library.Product_Lexorder" "HOL-Library.AList"
begin

section \<open>Python values used by the health analyzer\<close>

text \<open>
  Strings are sequences of UTF-8 bytes; every emoji of the source is written out as its
  bytes. The character classes below are Python's for the ASCII range (\<open>str.isspace\<close>,
  the regular expression classes \<open>\s\<close> and \<open>\w\<close>, \<open>str.lower\<close>); bytes above 127 are
  left alone, so the text functions are those of the source on ASCII text.
  Floats are idealised as exact rationals.
\<close>

datatype py_error = IndexError | KeyError | ValueError

datatype pyval = Str string | StrList "string list" | Dict "(string \<times> pyval) list"

definition is_ascii :: "char \<Rightarrow> bool" where
  "is_ascii c = ((of_char c :: nat) < 128)"

definition is_space :: "char \<Rightarrow> bool" where
  "is_space c = (let n = (of_char c :: nat) in (9 \<le> n \<and> n \<le> 13) \<or> (28 \<le> n \<and> n \<le> 32))"

definition is_word :: "char \<Rightarrow> bool" where
  "is_word c = (let n = (of_char c :: nat) in
     (48 \<le> n \<and> n \<le> 57) \<or> (65 \<le> n \<and> n \<le> 90) \<or> n = 95 \<or> (97 \<le> n \<and> n \<le> 122))"

definition lower_char :: "char \<Rightarrow> char" where
  "lower_char c = (let n = (of_char c :: nat) in if 65 \<le> n \<and> n \<le> 90 then char_of (n + 32) else c)"

definition lower :: "string \<Rightarrow> string" where
  "lower s = map lower_char s"

text \<open>\<open>s.strip()\<close>: leading and trailing whitespace removed.\<close>

definition strip :: "string \<Rightarrow> string" where
  "strip s = rev (dropWhile is_space (rev (dropWhile is_space s)))"

text \<open>\<open>needle in haystack\<close> on strings.\<close>

fun py_in :: "string \<Rightarrow> string \<Rightarrow> bool" where
  "py_in needle [] = (needle = [])"
| "py_in needle (c # cs) = (prefix needle (c # cs) \<or> py_in needle cs)"

text \<open>\<open>s.split(',')\<close>: always at least one piece.\<close>

fun split_comma :: "string \<Rightarrow> string list" where
  "split_comma [] = [[]]"
| "split_comma (c # cs) =
     (if c = CHR '','' then [] # split_comma cs
      else (case split_comma cs of
              [] \<Rightarrow> [[c]]
            | w # ws \<Rightarrow> (c # w) # ws))"

text \<open>\<open>xs[:n]\<close> for any integer \<open>n\<close>; a negative \<open>n\<close> counts from the end.\<close>

definition py_take :: "int \<Rightarrow> 'a list \<Rightarrow> 'a list" where
  "py_take n xs = (if n < 0 then take (nat (int (length xs) + n)) xs else take (nat n) xs)"

text \<open>\<open>list(dict.fromkeys(xs))\<close>: the first occurrence of each element, in order.\<close>

definition dict_fromkeys :: "'a list \<Rightarrow> 'a list" where
  "dict_fromkeys xs = fold (\<lambda>x acc. if x \<in> set acc then acc else acc @ [x]) xs []"

text \<open>\<open>max(x :: xs, key=f)\<close>: the first element whose key is maximal.\<close>

fun py_max_key :: "('a \<Rightarrow> nat) \<Rightarrow> 'a \<Rightarrow> 'a list \<Rightarrow> 'a" where
  "py_max_key f best [] = best"
| "py_max_key f best (x # xs) = py_max_key f (if f best < f x then x else best) xs"

text \<open>\<open>round(x, 2)\<close>: to the nearest hundredth, an exact tie to the even one.\<close>

definition py_round2 :: "rat \<Rightarrow> rat" where
  "py_round2 x =
     (let y = x * 100; f = \<lfloor>y\<rfloor>; r = y - of_int f;
          n = (if r < 1 / 2 then f else if 1 / 2 < r then f + 1
               else if even f then f else f + 1)
      in of_int n / 100)"

text \<open>
  \<open>np.argsort(xs)\<close>: the indices of \<open>xs\<close> in ascending order of their values. The
  default sort of numpy is not stable: the order it gives to indices of equal values is
  not specified and differs between its implementations. That order is a parameter:
  \<open>ties xs i\<close> is the rank numpy gives to index \<open>i\<close> among the indices of the same value
  (indices of the same value and rank stay in index order).
\<close>

definition np_argsort :: "(rat list \<Rightarrow> nat \<Rightarrow> nat) \<Rightarrow> rat list \<Rightarrow> nat list" where
  "np_argsort ties xs = sort_key (\<lambda>i. (xs ! i, ties xs i)) [0..<length xs]"

section \<open>The prediction engine (prediction_engine.py)\<close>

text \<open>A row of the catalog, with the columns of the CSV file.\<close>

record disease_record =
  Disease :: string
  Symptoms :: string
  Severity :: string
  Precautions :: string
  Diet_Recommendations :: string
  Description :: string

text \<open>The dictionary built for each predicted disease.\<close>

record prediction =
  disease :: string
  confidence :: rat
  severity :: string
  precautions :: string
  diet_recommendations :: string
  description :: string
  matched_symptoms :: string

text \<open>
  A prepared \<open>HealthPredictor\<close>: the catalog \<open>df\<close> and the two fitted scikit-learn models,
  each as the function it computes on a preprocessed input:
  \<open>cosine\<close> is \<open>cosine_similarity(vectorizer.transform([s]), symptom_vectors).flatten()\<close>,
  one score per catalog row, and \<open>predict_proba\<close> is
  \<open>model.predict_proba(vectorizer.transform([s]))[0]\<close>, one probability per label.
  \<open>tie_order\<close> is the order that the numpy of the process gives to equal values in
  \<open>np.argsort\<close>.
\<close>

record health_predictor =
  df :: "disease_record list"
  cosine :: "string \<Rightarrow> rat list"
  predict_proba :: "string \<Rightarrow> rat list"
  tie_order :: "rat list \<Rightarrow> nat \<Rightarrow> nat"

definition replace_semicolon :: "string \<Rightarrow> string" where
  "replace_semicolon s = map (\<lambda>c. if c = CHR '';'' then CHR '' '' else c) s"

definition keep_char :: "char \<Rightarrow> bool" where
  "keep_char c = (is_word c \<or> is_space c)"

definition preprocess_symptoms :: "string \<Rightarrow> string" where
  "preprocess_symptoms symptoms =
     filter keep_char (strip (lower (replace_semicolon symptoms)))"

text \<open>
  \<open>label_encoder.classes_\<close> after \<open>fit_transform(df['Disease'])\<close> in \<open>prepare_models\<close>: the
  distinct disease names, sorted.
\<close>

definition label_classes :: "disease_record list \<Rightarrow> string list" where
  "label_classes rows = sort (remdups (map Disease rows))"

definition inverse_transform :: "string list \<Rightarrow> nat \<Rightarrow> py_error + string" where
  "inverse_transform classes idx =
     (if idx < length classes then Inr (classes ! idx) else Inl ValueError)"

definition calculate_similarity_scores :: "health_predictor \<Rightarrow> string \<Rightarrow> rat list" where
  "calculate_similarity_scores hp user_symptoms = cosine hp (preprocess_symptoms user_symptoms)"

definition make_prediction :: "string \<Rightarrow> rat \<Rightarrow> disease_record \<Rightarrow> prediction" where
  "make_prediction name conf disease_info =
     \<lparr> disease = name, confidence = py_round2 conf, severity = Severity disease_info,
       precautions = Precautions disease_info,
       diet_recommendations = Diet_Recommendations disease_info,
       description = Description disease_info, matched_symptoms = Symptoms disease_info \<rparr>"

text \<open>The loop over \<open>top_indices\<close> of \<open>predict_diseases_similarity\<close>.\<close>

fun similarity_loop ::
  "disease_record list \<Rightarrow> rat list \<Rightarrow> nat list \<Rightarrow> py_error + prediction list" where
  "similarity_loop rows similarities [] = Inr []"
| "similarity_loop rows similarities (idx # rest) =
     (if \<not> idx < length similarities then Inl IndexError
      else if 0 < similarities ! idx then
        (if \<not> idx < length rows then Inl IndexError
         else (case similarity_loop rows similarities rest of
                 Inl e \<Rightarrow> Inl e
               | Inr predictions \<Rightarrow>
                   Inr (make_prediction (Disease (rows ! idx)) (similarities ! idx * 100)
                          (rows ! idx) # predictions)))
      else similarity_loop rows similarities rest)"

definition predict_diseases_similarity ::
  "health_predictor \<Rightarrow> string \<Rightarrow> int \<Rightarrow> py_error + prediction list" where
  "predict_diseases_similarity hp user_symptoms top_n =
     (let similarities = calculate_similarity_scores hp user_symptoms;
          top_indices = py_take top_n (rev (np_argsort (tie_order hp) similarities))
      in similarity_loop (df hp) similarities top_indices)"

text \<open>
  The loop of \<open>predict_diseases_ml\<close>. \<open>df[df['Disease'] == name].iloc[0]\<close> is the first
  row with that name, and an IndexError when there is none.
\<close>

fun ml_loop ::
  "disease_record list \<Rightarrow> rat list \<Rightarrow> nat list \<Rightarrow> py_error + prediction list" where
  "ml_loop rows probabilities [] = Inr []"
| "ml_loop rows probabilities (idx # rest) =
     (if \<not> idx < length probabilities then Inl IndexError
      else if 1 / 100 < probabilities ! idx then
        (case inverse_transform (label_classes rows) idx of
           Inl e \<Rightarrow> Inl e
         | Inr disease_name \<Rightarrow>
             (case find (\<lambda>r. Disease r = disease_name) rows of
                None \<Rightarrow> Inl IndexError
              | Some disease_info \<Rightarrow>
                  (case ml_loop rows probabilities rest of
                     Inl e \<Rightarrow> Inl e
                   | Inr predictions \<Rightarrow>
                       Inr (make_prediction disease_name (probabilities ! idx * 100)
                              disease_info # predictions))))
      else ml_loop rows probabilities rest)"

definition predict_diseases_ml ::
  "health_predictor \<Rightarrow> string \<Rightarrow> int \<Rightarrow> py_error + prediction list" where
  "predict_diseases_ml hp user_symptoms top_n =
     (let probabilities = predict_proba hp (preprocess_symptoms user_symptoms);
          top_indices = py_take top_n (rev (np_argsort (tie_order hp) probabilities))
      in ml_loop (df hp) probabilities top_indices)"

text \<open>
  \<open>combined_scores\<close> is a dictionary from disease name to \<open>info\<close> and \<open>score\<close>, kept as an
  association list in insertion order; assigning to a key that is present keeps its place.
\<close>

type_synonym combined = "(string \<times> prediction \<times> rat) list"

definition add_similarity :: "prediction \<Rightarrow> combined \<Rightarrow> combined" where
  "add_similarity pred cs = AList.update (disease pred) (pred, confidence pred * (6 / 10)) cs"

definition add_ml :: "prediction \<Rightarrow> combined \<Rightarrow> combined" where
  "add_ml pred cs =
     (case map_of cs (disease pred) of
        Some (info, score) \<Rightarrow>
          AList.update (disease pred) (info, score + confidence pred * (4 / 10)) cs
      | None \<Rightarrow> AList.update (disease pred) (pred, confidence pred * (4 / 10)) cs)"

definition combine_scores :: "prediction list \<Rightarrow> prediction list \<Rightarrow> combined" where
  "combine_scores similarity_predictions ml_predictions =
     fold add_ml ml_predictions (fold add_similarity similarity_predictions [])"

text \<open>\<open>sorted(..., key=score, reverse=True)\<close> is stable: equal scores keep their order.\<close>

definition sort_by_score :: "combined \<Rightarrow> combined" where
  "sort_by_score cs = sort_key (\<lambda>(d, info, score). - score) cs"

definition finalize :: "string \<times> prediction \<times> rat \<Rightarrow> prediction" where
  "finalize = (\<lambda>(d, info, score). info\<lparr>confidence := py_round2 score\<rparr>)"

definition hybrid_prediction ::
  "health_predictor \<Rightarrow> string \<Rightarrow> int \<Rightarrow> py_error + prediction list" where
  "hybrid_prediction hp user_symptoms top_n =
     (case predict_diseases_similarity hp user_symptoms top_n of
        Inl e \<Rightarrow> Inl e
      | Inr similarity_predictions \<Rightarrow>
          (case predict_diseases_ml hp user_symptoms top_n of
             Inl e \<Rightarrow> Inl e
           | Inr ml_predictions \<Rightarrow>
               Inr (map finalize
                     (py_take top_n
                        (sort_by_score
                           (combine_scores similarity_predictions ml_predictions))))))"

section \<open>The recommendation system (recommendation.py)\<close>

record severity_action =
  urgency :: string
  action :: string
  timeframe :: string
  color :: string

definition severity_actions :: "(string \<times> severity_action) list" where
  "severity_actions =
     [(''Mild'',
       \<lparr> urgency = ''Low Priority'',
         action = ''Monitor symptoms and try self-care measures'',
         timeframe = ''If symptoms persist for more than 3-5 days'',
         color = [CHR 0xF0, CHR 0x9F, CHR 0x9F, CHR 0xA2] \<rparr>),
      (''Moderate'',
       \<lparr> urgency = ''Medium Priority'',
         action = ''Consider scheduling an appointment with healthcare provider'',
         timeframe = ''If symptoms persist for more than 24-48 hours or worsen'',
         color = [CHR 0xF0, CHR 0x9F, CHR 0x9F, CHR 0xA1] \<rparr>),
      (''Severe'',
       \<lparr> urgency = ''HIGH PRIORITY'',
         action = ''Seek immediate medical attention'',
         timeframe = ''Contact healthcare provider immediately or visit emergency room'',
         color = [CHR 0xF0, CHR 0x9F, CHR 0x94, CHR 0xB4] \<rparr>)]"

definition general_health_tips :: "string list" where
  "general_health_tips =
     [[CHR 0xF0, CHR 0x9F, CHR 0x92, CHR 0xA7]
        @ '' Stay well-hydrated by drinking plenty of water throughout the day'',
      [CHR 0xF0, CHR 0x9F, CHR 0x98, CHR 0xB4]
        @ '' Ensure adequate rest and sleep (7-9 hours for adults)'',
      [CHR 0xF0, CHR 0x9F, CHR 0x8F, CHR 0x83, CHR 0xE2, CHR 0x80, CHR 0x8D, CHR 0xE2, CHR 0x99,
       CHR 0x82, CHR 0xEF, CHR 0xB8, CHR 0x8F]
        @ '' Maintain light physical activity as tolerated'',
      [CHR 0xF0, CHR 0x9F, CHR 0xA7, CHR 0x98, CHR 0xE2, CHR 0x80, CHR 0x8D, CHR 0xE2, CHR 0x99,
       CHR 0x80, CHR 0xEF, CHR 0xB8, CHR 0x8F]
        @ '' Practice stress management techniques like meditation or deep breathing'',
      [CHR 0xF0, CHR 0x9F, CHR 0x9A, CHR 0xAD] @ '' Avoid smoking and limit alcohol consumption'',
      [CHR 0xF0, CHR 0x9F, CHR 0xA7, CHR 0xBC] @ '' Maintain good hygiene practices'',
      [CHR 0xF0, CHR 0x9F, CHR 0x8C, CHR 0xA1, CHR 0xEF, CHR 0xB8, CHR 0x8F]
        @ '' Monitor your symptoms and track any changes'',
      [CHR 0xF0, CHR 0x9F, CHR 0x93, CHR 0xB1] @ '' Keep emergency contacts readily available'']"

text \<open>\<open>severity_priority.get(x, 0)\<close>.\<close>

definition severity_priority :: "string \<Rightarrow> nat" where
  "severity_priority x =
     (case map_of [(''Severe'', 3), (''Moderate'', 2), (''Mild'', 1)] x of
        None \<Rightarrow> 0
      | Some n \<Rightarrow> n)"

text \<open>\<open>self.severity_actions[highest_severity]\<close> raises KeyError for an unlisted severity.\<close>

definition generate_severity_assessment ::
  "prediction list \<Rightarrow> py_error + (string \<times> pyval) list" where
  "generate_severity_assessment predictions =
     (case map severity predictions of
        [] \<Rightarrow>
          Inr [(''overall_severity'', Str ''Unknown''),
               (''recommendation'',
                Str ''Unable to assess. Please consult a healthcare provider.''),
               (''urgency'', Str ''Consult healthcare provider''),
               (''color'', Str [CHR 0xE2, CHR 0x9A, CHR 0xAA])]
      | s # severities \<Rightarrow>
          (let highest_severity = py_max_key severity_priority s severities
           in case map_of severity_actions highest_severity of
                None \<Rightarrow> Inl KeyError
              | Some severity_info \<Rightarrow>
                  Inr [(''overall_severity'', Str highest_severity),
                       (''recommendation'', Str (action severity_info)),
                       (''urgency'', Str (urgency severity_info)),
                       (''timeframe'', Str (timeframe severity_info)),
                       (''color'', Str (color severity_info))]))"

text \<open>A missing or NaN field is the empty string here: all three give no phrase.\<close>

definition parse_recommendations :: "string \<Rightarrow> string list" where
  "parse_recommendations recommendation_text =
     (if recommendation_text = [] then []
      else filter (\<lambda>rec. rec \<noteq> []) (map strip (split_comma recommendation_text)))"

text \<open>
  The collecting loops of the lifestyle and the dietary recommendations: a phrase is
  looked up in the list as it is, and appended behind its marker.
\<close>

definition collect_marked :: "string \<Rightarrow> string list \<Rightarrow> string list \<Rightarrow> string list" where
  "collect_marked marker phrases recs =
     fold (\<lambda>phrase acc. if phrase \<notin> set acc then acc @ [marker @ phrase] else acc) phrases recs"

definition lifestyle_marker :: string where
  "lifestyle_marker = [CHR 0xE2, CHR 0x9A, CHR 0xA0, CHR 0xEF, CHR 0xB8, CHR 0x8F] @ '' ''"

definition dietary_marker :: string where
  "dietary_marker = [CHR 0xF0, CHR 0x9F, CHR 0x8D, CHR 0xBD, CHR 0xEF, CHR 0xB8, CHR 0x8F] @ '' ''"

definition generate_lifestyle_recommendations ::
  "prediction list \<Rightarrow> py_error + string list" where
  "generate_lifestyle_recommendations predictions =
     (if predictions = [] then Inr []
      else
        (let lifestyle_recs =
               fold (\<lambda>pred acc.
                       collect_marked lifestyle_marker
                         (parse_recommendations (precautions pred)) acc)
                 predictions []
         in case generate_severity_assessment predictions of
              Inl e \<Rightarrow> Inl e
            | Inr severity_assessment \<Rightarrow>
                Inr (if map_of severity_assessment ''overall_severity''
                          \<in> {Some (Str ''Mild''), Some (Str ''Moderate'')}
                     then lifestyle_recs @ take 4 general_health_tips
                     else lifestyle_recs @ take 2 general_health_tips)))"

definition general_dietary_tips :: "string list" where
  "general_dietary_tips =
     [[CHR 0xF0, CHR 0x9F, CHR 0xA5, CHR 0x97]
        @ '' Eat a balanced diet rich in fruits and vegetables'',
      [CHR 0xF0, CHR 0x9F, CHR 0x92, CHR 0x8A]
        @ '' Consider appropriate vitamin supplements if recommended'',
      [CHR 0xF0, CHR 0x9F, CHR 0x8D, CHR 0xAF]
        @ '' Natural remedies like honey and ginger may help with some symptoms'',
      [CHR 0xF0, CHR 0x9F, CHR 0x9A, CHR 0xAB] @ '' Avoid foods that may worsen your condition'']"

definition generate_dietary_recommendations :: "prediction list \<Rightarrow> string list" where
  "generate_dietary_recommendations predictions =
     (if predictions = [] then []
      else
        (let dietary_recs =
               fold (\<lambda>pred acc.
                       collect_marked dietary_marker
                         (parse_recommendations (diet_recommendations pred)) acc)
                 predictions []
         in if length dietary_recs < 3 then dietary_recs @ take 2 general_dietary_tips
            else dietary_recs))"

definition general_warning_signs :: "string list" where
  "general_warning_signs =
     [[CHR 0xF0, CHR 0x9F, CHR 0x9A, CHR 0xA8] @ '' Difficulty breathing or shortness of breath'',
      [CHR 0xF0, CHR 0x9F, CHR 0x9A, CHR 0xA8] @ '' Chest pain or pressure'',
      [CHR 0xF0, CHR 0x9F, CHR 0x9A, CHR 0xA8] @ '' High fever (>103'' @ [CHR 0xC2, CHR 0xB0]
        @ ''F/39.4'' @ [CHR 0xC2, CHR 0xB0] @ ''C)'',
      [CHR 0xF0, CHR 0x9F, CHR 0x9A, CHR 0xA8] @ '' Severe dehydration'',
      [CHR 0xF0, CHR 0x9F, CHR 0x9A, CHR 0xA8] @ '' Persistent vomiting'',
      [CHR 0xF0, CHR 0x9F, CHR 0x9A, CHR 0xA8] @ '' Severe abdominal pain'',
      [CHR 0xF0, CHR 0x9F, CHR 0x9A, CHR 0xA8]
        @ '' Signs of infection (spreading redness, pus)'',
      [CHR 0xF0, CHR 0x9F, CHR 0x9A, CHR 0xA8] @ '' Loss of consciousness or confusion'']"

definition cardiac_warning :: string where
  "cardiac_warning =
     [CHR 0xF0, CHR 0x9F, CHR 0x9A, CHR 0xA8] @ '' Chest pain radiating to arm, jaw, or back''"

definition stroke_warning :: string where
  "stroke_warning =
     [CHR 0xF0, CHR 0x9F, CHR 0x9A, CHR 0xA8]
       @ '' Sudden weakness, speech difficulty, or vision problems''"

definition asthma_warning :: string where
  "asthma_warning =
     [CHR 0xF0, CHR 0x9F, CHR 0x9A, CHR 0xA8] @ '' Severe difficulty breathing or wheezing''"

definition diabetes_warning :: string where
  "diabetes_warning =
     [CHR 0xF0, CHR 0x9F, CHR 0x9A, CHR 0xA8] @ '' Extremely high or low blood sugar levels''"

text \<open>One turn of the loop of \<open>generate_warning_signs\<close>: an \<open>if\<close>/\<open>elif\<close> chain.\<close>

definition add_specific_warning :: "prediction \<Rightarrow> string list \<Rightarrow> string list" where
  "add_specific_warning pred specific_warnings =
     (let disease = lower (disease pred)
      in if py_in ''heart'' disease \<or> py_in ''cardiac'' disease
           then specific_warnings @ [cardiac_warning]
         else if py_in ''stroke'' disease then specific_warnings @ [stroke_warning]
         else if py_in ''asthma'' disease then specific_warnings @ [asthma_warning]
         else if py_in ''diabetes'' disease then specific_warnings @ [diabetes_warning]
         else specific_warnings)"

definition generate_warning_signs :: "prediction list \<Rightarrow> string list" where
  "generate_warning_signs predictions =
     (if predictions = [] then []
      else
        (let specific_warnings = fold add_specific_warning predictions [];
             all_warnings = specific_warnings @ take 5 general_warning_signs
         in dict_fromkeys all_warnings))"

definition cold_flu_tips :: "string list" where
  "cold_flu_tips =
     [[CHR 0xF0, CHR 0x9F, CHR 0xA4, CHR 0xA7]
        @ '' Use a humidifier or breathe steam from a hot shower'',
      [CHR 0xF0, CHR 0x9F, CHR 0x8D, CHR 0xB5] @ '' Drink warm beverages like tea with honey'',
      [CHR 0xF0, CHR 0x9F, CHR 0xA7, CHR 0x8A] @ '' Gargle with warm salt water for sore throat'']"

definition headache_tips :: "string list" where
  "headache_tips =
     [[CHR 0xF0, CHR 0x9F, CHR 0x8C, CHR 0x91] @ '' Rest in a dark, quiet room'',
      [CHR 0xE2, CHR 0x9D, CHR 0x84, CHR 0xEF, CHR 0xB8, CHR 0x8F]
        @ '' Apply cold or warm compress to head/neck'',
      [CHR 0xF0, CHR 0x9F, CHR 0x92, CHR 0x86, CHR 0xE2, CHR 0x80, CHR 0x8D, CHR 0xE2, CHR 0x99,
       CHR 0x80, CHR 0xEF, CHR 0xB8, CHR 0x8F]
        @ '' Try gentle neck and shoulder massage'']"

definition stomach_tips :: "string list" where
  "stomach_tips =
     [[CHR 0xF0, CHR 0x9F, CHR 0x8D, CHR 0x9A]
        @ '' Follow BRAT diet (Bananas, Rice, Applesauce, Toast)'',
      [CHR 0xF0, CHR 0x9F, CHR 0x92, CHR 0xA7] @ '' Sip clear fluids frequently'',
      [CHR 0xF0, CHR 0x9F, CHR 0x8C, CHR 0xA1, CHR 0xEF, CHR 0xB8, CHR 0x8F]
        @ '' Use heating pad on stomach for comfort'']"

definition seek_attention_tip :: string where
  "seek_attention_tip =
     [CHR 0xE2, CHR 0x9A, CHR 0xA0, CHR 0xEF, CHR 0xB8, CHR 0x8F]
       @ '' Seek immediate medical attention - self-care not appropriate for severe conditions''"

text \<open>The loop of \<open>generate_self_care_tips\<close>; a severe candidate ends it (\<open>break\<close>).\<close>

fun self_care_loop :: "prediction list \<Rightarrow> string list \<Rightarrow> string list" where
  "self_care_loop [] self_care_tips = self_care_tips"
| "self_care_loop (pred # rest) self_care_tips =
     (let disease = lower (disease pred);
          tips =
            (if py_in ''cold'' disease \<or> py_in ''flu'' disease
               then self_care_tips @ cold_flu_tips
             else if py_in ''headache'' disease \<or> py_in ''migraine'' disease
               then self_care_tips @ headache_tips
             else if py_in ''stomach'' disease \<or> py_in ''gastro'' disease
               then self_care_tips @ stomach_tips
             else self_care_tips)
      in if severity pred = ''Severe'' then [seek_attention_tip]
         else self_care_loop rest tips)"

definition generate_self_care_tips :: "prediction list \<Rightarrow> string list" where
  "generate_self_care_tips predictions =
     (if predictions = [] then [] else dict_fromkeys (self_care_loop predictions []))"

definition severe_followup :: "string list" where
  "severe_followup =
     [[CHR 0xF0, CHR 0x9F, CHR 0x8F, CHR 0xA5] @ '' Seek immediate emergency medical care'',
      [CHR 0xF0, CHR 0x9F, CHR 0x93, CHR 0x9E]
        @ '' Call emergency services if symptoms are life-threatening'',
      [CHR 0xF0, CHR 0x9F, CHR 0x91, CHR 0xA8, CHR 0xE2, CHR 0x80, CHR 0x8D, CHR 0xE2, CHR 0x9A,
       CHR 0x95, CHR 0xEF, CHR 0xB8, CHR 0x8F]
        @ '' Follow up with specialists as recommended'']"

definition moderate_followup :: "string list" where
  "moderate_followup =
     [[CHR 0xF0, CHR 0x9F, CHR 0x93, CHR 0x85]
        @ '' Schedule appointment with primary care physician within 24-48 hours'',
      [CHR 0xF0, CHR 0x9F, CHR 0x93, CHR 0x8A] @ '' Consider getting relevant tests or screenings'',
      [CHR 0xF0, CHR 0x9F, CHR 0x93, CHR 0x9D] @ '' Keep a symptom diary to track changes'',
      [CHR 0xF0, CHR 0x9F, CHR 0x92, CHR 0x8A]
        @ '' Follow prescribed treatment plan if applicable'']"

definition mild_followup :: "string list" where
  "mild_followup =
     [[CHR 0xF0, CHR 0x9F, CHR 0x93, CHR 0x8B] @ '' Monitor symptoms for 3-5 days'',
      [CHR 0xF0, CHR 0x9F, CHR 0x93, CHR 0x85] @ '' Schedule routine check-up if symptoms persist'',
      [CHR 0xF0, CHR 0x9F, CHR 0x93, CHR 0xB1] @ '' Consider telehealth consultation if available'',
      [CHR 0xF0, CHR 0x9F, CHR 0x93, CHR 0x96]
        @ '' Research reputable health information sources'']"

definition generate_followup_recommendations :: "prediction list \<Rightarrow> py_error + string list" where
  "generate_followup_recommendations predictions =
     (case generate_severity_assessment predictions of
        Inl e \<Rightarrow> Inl e
      | Inr severity_assessment \<Rightarrow>
          Inr (if map_of severity_assessment ''overall_severity'' = Some (Str ''Severe'')
                 then severe_followup
               else if map_of severity_assessment ''overall_severity'' = Some (Str ''Moderate'')
                 then moderate_followup
               else mild_followup))"

definition generate_disclaimer :: "(string \<times> pyval) list" where
  "generate_disclaimer =
     [(''title'',
       Str ([CHR 0xE2, CHR 0x9A, CHR 0xA0, CHR 0xEF, CHR 0xB8, CHR 0x8F]
              @ '' IMPORTANT MEDICAL DISCLAIMER'')),
      (''content'',
       StrList
         [''This system is for informational purposes only and does not constitute medical advice.'',
          ''Always consult with qualified healthcare professionals for proper diagnosis and treatment.'',
          ''In case of medical emergency, call your local emergency services immediately.'',
          ''This tool should not replace professional medical consultation, examination, or treatment.''])]"

text \<open>
  The returned dictionary, its keys in the order of the source. \<open>now\<close> is the formatted
  \<open>datetime.now()\<close> of the call.
\<close>

definition generate_comprehensive_recommendations ::
  "prediction list \<Rightarrow> string \<Rightarrow> string \<Rightarrow> py_error + (string \<times> pyval) list" where
  "generate_comprehensive_recommendations predictions user_symptoms now =
     (if predictions = [] then
        Inr [(''error'', Str ''No predictions available to generate recommendations''),
             (''general_advice'',
              Str ''Please consult with a healthcare provider for proper evaluation.'')]
      else
        (case generate_severity_assessment predictions of
           Inl e \<Rightarrow> Inl e
         | Inr severity_assessment \<Rightarrow>
             (case generate_lifestyle_recommendations predictions of
                Inl e \<Rightarrow> Inl e
              | Inr lifestyle \<Rightarrow>
                  (case generate_followup_recommendations predictions of
                     Inl e \<Rightarrow> Inl e
                   | Inr followup \<Rightarrow>
                       Inr [(''timestamp'', Str now),
                            (''input_symptoms'', Str user_symptoms),
                            (''severity_assessment'', Dict severity_assessment),
                            (''lifestyle_recommendations'', StrList lifestyle),
                            (''dietary_recommendations'',
                             StrList (generate_dietary_recommendations predictions)),
                            (''self_care_tips'',
                             StrList (generate_self_care_tips predictions)),
                            (''warning_signs'', StrList (generate_warning_signs predictions)),
                            (''followup_recommendations'', StrList followup),
                            (''disclaimer'', Dict generate_disclaimer)]))))"

section \<open>Example data\<close>

text \<open>A candidate as the prediction engine builds it, for the examples below.\<close>

definition candidate :: "string \<Rightarrow> string \<Rightarrow> string \<Rightarrow> prediction" where
  "candidate name sev prec =
     \<lparr> disease = name, confidence = 50, severity = sev, precautions = prec,
       diet_recommendations = ''Warm fluids, ginger tea'', description = ''A condition'',
       matched_symptoms = ''fever;cough'' \<rparr>"

text \<open>A catalog row, two rows of distinct diseases, and a second row named Flu.\<close>

definition row :: "string \<Rightarrow> string \<Rightarrow> string \<Rightarrow> disease_record" where
  "row name symptoms sev =
     \<lparr> Disease = name, Symptoms = symptoms, Severity = sev, Precautions = ''Rest'',
       Diet_Recommendations = ''Warm fluids'', Description = ''A condition'' \<rparr>"

definition example_predictor :: "disease_record list \<Rightarrow> rat list \<Rightarrow> rat list \<Rightarrow> health_predictor" where
  "example_predictor rows similarities probabilities =
     \<lparr> df = rows, cosine = (\<lambda>s. similarities), predict_proba = (\<lambda>s. probabilities),
       tie_order = (\<lambda>xs i. 0) \<rparr>"

definition flu_row :: disease_record where
  "flu_row = row ''Flu'' ''fever;cough;chills;fatigue'' ''Moderate''"

definition cold_row :: disease_record where
  "cold_row = row ''Common Cold'' ''fever;runny nose;cough'' ''Mild''"

definition flu_row2 :: disease_record where
  "flu_row2 = row ''Flu'' ''fever;body ache'' ''Severe''"

text \<open>A candidate carries the fields of a catalog row.\<close>

definition carries_fields :: "prediction \<Rightarrow> disease_record \<Rightarrow> bool" where
  "carries_fields p r =
     (severity p = Severity r \<and> precautions p = Precautions r
      \<and> diet_recommendations p = Diet_Recommendations r
      \<and> description p = Description r \<and> matched_symptoms p = Symptoms r)"

text \<open>
  Row \<open>i\<close> is ranked before row \<open>j\<close>: a higher similarity, or the same similarity and
  the later place in the order of \<open>np.argsort\<close>.
\<close>

definition ranks_before :: "(rat list \<Rightarrow> nat \<Rightarrow> nat) \<Rightarrow> rat list \<Rightarrow> nat \<Rightarrow> nat \<Rightarrow> bool" where
  "ranks_before ties similarities i j =
     (similarities ! j < similarities ! i
      \<or> (similarities ! i = similarities ! j
          \<and> (ties similarities j < ties similarities i
              \<or> (ties similarities i = ties similarities j \<and> j < i))))"

text \<open>The characters a normalised text is made of.\<close>

definition normal_char :: "char \<Rightarrow> bool" where
  "normal_char c = (keep_char c \<and> lower_char c = c \<and> c \<noteq> CHR '';'')"

section \<open>The text normaliser\<close>

lemma lower_char_idem: "lower_char (lower_char c) = lower_char c"
  by (simp add: lower_char_def Let_def)

lemma semicolon_not_kept: "\<not> keep_char CHR '';''"
  by (simp add: keep_char_def is_word_def is_space_def)

lemma set_strip: "set (strip s) \<subseteq> set s"
  unfolding strip_def by (auto dest!: set_dropWhileD)

lemma preprocess_chars: "c \<in> set (preprocess_symptoms s) \<Longrightarrow> normal_char c"
proof -
  assume a: "c \<in> set (preprocess_symptoms s)"
  then have k: "keep_char c" by (simp add: preprocess_symptoms_def)
  from a have "c \<in> set (strip (lower (replace_semicolon s)))" by (simp add: preprocess_symptoms_def)
  then have "c \<in> set (lower (replace_semicolon s))" using set_strip by blast
  then obtain d where "c = lower_char d" by (auto simp: lower_def)
  then have "lower_char c = c" by (simp add: lower_char_idem)
  moreover have "c \<noteq> CHR '';''" using k semicolon_not_kept by auto
  ultimately show ?thesis using k by (simp add: normal_char_def)
qed

lemma preprocess_normal:
  assumes "\<forall>c\<in>set t. normal_char c"
  shows "preprocess_symptoms t = strip t"
proof -
  have 1: "replace_semicolon t = t"
    unfolding replace_semicolon_def using assms by (intro map_idI) (auto simp: normal_char_def)
  have 2: "lower t = t"
    unfolding lower_def using assms by (intro map_idI) (auto simp: normal_char_def)
  have "\<forall>c\<in>set (strip t). keep_char c" using assms set_strip by (auto simp: normal_char_def)
  then have "filter keep_char (strip t) = strip t" by simp
  then show ?thesis by (simp add: preprocess_symptoms_def 1 2)
qed

lemma dropWhile_rev_hd:
  "dropWhile P (rev ys) \<noteq> [] \<Longrightarrow> hd (rev (dropWhile P (rev ys))) = hd ys"
proof -
  assume a: "dropWhile P (rev ys) \<noteq> []"
  have "rev ys = takeWhile P (rev ys) @ dropWhile P (rev ys)" by simp
  then have "ys = rev (dropWhile P (rev ys)) @ rev (takeWhile P (rev ys))"
    by (metis rev_append rev_rev_ident)
  then show ?thesis using a by (metis hd_append2 rev_is_Nil_conv)
qed

lemma dropWhile_hd_id: "xs = [] \<or> \<not> P (hd xs) \<Longrightarrow> dropWhile P xs = xs"
  by (cases xs) auto

lemma strip_idem: "strip (strip s) = strip s"
proof -
  define y where "y = dropWhile is_space s"
  define z where "z = dropWhile is_space (rev y)"
  have hy: "y = [] \<or> \<not> is_space (hd y)" unfolding y_def by (metis hd_dropWhile)
  have hz: "z = [] \<or> \<not> is_space (hd z)" unfolding z_def by (metis hd_dropWhile)
  have "rev z = [] \<or> \<not> is_space (hd (rev z))"
  proof (cases "z = []")
    case True then show ?thesis by simp
  next
    case False
    then have "hd (rev z) = hd y" unfolding z_def by (rule dropWhile_rev_hd)
    moreover have "y \<noteq> []" using False z_def by auto
    ultimately show ?thesis using hy by simp
  qed
  then have a: "dropWhile is_space (rev z) = rev z" by (rule dropWhile_hd_id)
  have b: "dropWhile is_space z = z" using hz by (rule dropWhile_hd_id)
  have "strip s = rev z" by (simp add: strip_def y_def z_def)
  moreover have "strip (rev z) = rev z" by (simp add: strip_def a b)
  ultimately show ?thesis by simp
qed

text \<open>
  The normaliser trims before it deletes punctuation, so a punctuation mark next to the
  trimmed end leaves a space behind: \<open>"fever ."\<close> becomes \<open>"fever "\<close>, and a second pass
  trims that to \<open>"fever"\<close>.
\<close>

theorem preprocess_symptoms_not_idempotent:
  "preprocess_symptoms (preprocess_symptoms ''fever .'') \<noteq> preprocess_symptoms ''fever .''"
  by code_simp

text \<open>
  C4, as the code has it: on ASCII text a second pass of \<open>preprocess_symptoms\<close> only trims
  the result of the first, and from then on nothing changes: the third pass equals the
  second. Normalising twice equals normalising once exactly when the first result has no
  whitespace at either end.
\<close>

theorem preprocess_symptoms_second_pass:
  assumes "\<forall>c\<in>set s. is_ascii c"
  shows "preprocess_symptoms (preprocess_symptoms s) = strip (preprocess_symptoms s)
       \<and> preprocess_symptoms (preprocess_symptoms (preprocess_symptoms s))
           = preprocess_symptoms (preprocess_symptoms s)"
proof -
  let ?t = "preprocess_symptoms s"
  have n: "\<forall>c\<in>set ?t. normal_char c" using preprocess_chars by blast
  then have 1: "preprocess_symptoms ?t = strip ?t" by (rule preprocess_normal)
  have "\<forall>c\<in>set (strip ?t). normal_char c" using n set_strip by blast
  then have "preprocess_symptoms (strip ?t) = strip (strip ?t)" by (rule preprocess_normal)
  then show ?thesis using 1 by (simp add: strip_idem)
qed

theorem preprocess_symptoms_second_pass_witness:
  "list_all is_ascii ''Fever; Cough .''
   \<and> preprocess_symptoms ''Fever; Cough .'' = ''fever  cough ''
   \<and> preprocess_symptoms (preprocess_symptoms ''Fever; Cough .'') = ''fever  cough''"
proof -
  have h: "\<forall>c\<in>set ''Fever; Cough .''. is_ascii c" by code_simp
  have v: "preprocess_symptoms ''Fever; Cough .'' = ''fever  cough ''" by code_simp
  have s: "strip ''fever  cough '' = ''fever  cough''" by code_simp
  have a: "list_all is_ascii ''Fever; Cough .''" using h by (simp only: list_all_iff)
  from preprocess_symptoms_second_pass [OF h] v s a show ?thesis by simp
qed

section \<open>The prediction engine\<close>

subsection \<open>The classifier arm\<close>

lemma set_np_argsort: "set (np_argsort ties xs) = {0..<length xs}"
  by (simp add: np_argsort_def)

lemma distinct_np_argsort: "distinct (np_argsort ties xs)"
  by (simp add: np_argsort_def)

lemma takeWhile_neq_nth:
  "distinct xs \<Longrightarrow> a < length xs \<Longrightarrow> length (takeWhile (\<lambda>j. j \<noteq> xs ! a) xs) = a"
proof (induction xs arbitrary: a)
  case Nil
  then show ?case by simp
next
  case (Cons x xs)
  show ?case
  proof (cases a)
    case 0
    then show ?thesis by simp
  next
    case (Suc b)
    then have "xs ! b \<in> set xs" using Cons.prems by simp
    then have "x \<noteq> xs ! b" using Cons.prems by auto
    then show ?thesis using Cons Suc by simp
  qed
qed

text \<open>
  Every order of the indices that sorts \<open>xs\<close> is \<open>np_argsort\<close> under some ranks of
  the ties: the parameter leaves the choice of numpy open and nothing else.
\<close>

lemma np_argsort_any_order:
  assumes "set idxs = {0..<length xs}" and "distinct idxs"
    and "sorted (map (\<lambda>i. xs ! i) idxs)"
  shows "np_argsort (\<lambda>ys i. length (takeWhile (\<lambda>j. j \<noteq> i) idxs)) xs = idxs"
proof -
  define place where "place = (\<lambda>i. length (takeWhile (\<lambda>j. j \<noteq> i) idxs))"
  define k where "k = (\<lambda>i. (xs ! i, place i))"
  define A where "A = sort_key k [0..<length xs]"
  have place: "place (idxs ! a) = a" if "a < length idxs" for a
    unfolding place_def using assms(2) that by (rule takeWhile_neq_nth)
  have inj: "inj_on k (set idxs)"
  proof (rule inj_onI)
    fix i j assume "i \<in> set idxs" "j \<in> set idxs" "k i = k j"
    then obtain a b where "a < length idxs" "i = idxs ! a" "b < length idxs" "j = idxs ! b"
      by (auto simp: in_set_conv_nth)
    then show "i = j" using \<open>k i = k j\<close> place by (auto simp: k_def)
  qed
  have setA: "set A = set idxs" by (simp add: A_def assms(1))
  have distA: "distinct A" by (simp add: A_def)
  have "sorted (map k idxs)"
  proof (rule sorted_iff_nth_mono [THEN iffD2], intro allI impI)
    fix a b assume "a \<le> b" "b < length (map k idxs)"
    then have b: "b < length idxs" and a: "a < length idxs" by simp_all
    have "xs ! (idxs ! a) \<le> xs ! (idxs ! b)"
      using assms(3) \<open>a \<le> b\<close> b by (auto simp: sorted_iff_nth_mono dest!: spec [of _ a])
    then show "map k idxs ! a \<le> map k idxs ! b"
      using a b \<open>a \<le> b\<close> place by (auto simp: k_def less_eq_prod_def)
  qed
  moreover have "sorted (map k A)" unfolding A_def by (rule sorted_sort_key)
  moreover have "distinct (map k idxs)" using assms(2) inj by (simp add: distinct_map)
  moreover have "distinct (map k A)" using distA inj setA by (simp add: distinct_map)
  moreover have "set (map k A) = set (map k idxs)" using setA by simp
  ultimately have "map k A = map k idxs" by (metis sorted_distinct_set_unique)
  moreover have "inj_on k (set A \<union> set idxs)" using inj setA by simp
  ultimately have "A = idxs" by (simp add: inj_on_map_eq_map)
  then show ?thesis by (simp add: np_argsort_def A_def k_def place_def)
qed

lemma set_py_take: "set (py_take n xs) \<subseteq> set xs"
  by (auto simp: py_take_def dest: in_set_takeD)

lemma distinct_py_take: "distinct xs \<Longrightarrow> distinct (py_take n xs)"
  by (simp add: py_take_def)

lemma top_indices_bound: "i \<in> set (py_take n (rev (np_argsort ties xs))) \<Longrightarrow> i < length xs"
  using set_py_take [of n "rev (np_argsort ties xs)"] by (auto simp: set_np_argsort)

lemma distinct_top_indices: "distinct (py_take n (rev (np_argsort ties xs)))"
  by (simp add: distinct_py_take distinct_np_argsort)

lemma set_label_classes: "set (label_classes rows) = Disease ` set rows"
  by (simp add: label_classes_def)

lemma distinct_label_classes: "distinct (label_classes rows)"
  by (simp add: label_classes_def)

lemma find_label:
  assumes "i < length (label_classes rows)"
  shows "\<exists>r. find (\<lambda>r. Disease r = label_classes rows ! i) rows = Some r
            \<and> Disease r = label_classes rows ! i"
proof -
  have "label_classes rows ! i \<in> Disease ` set rows"
    using assms set_label_classes nth_mem by blast
  then have "find (\<lambda>r. Disease r = label_classes rows ! i) rows \<noteq> None"
    by (auto simp: find_None_iff)
  then obtain r where r: "find (\<lambda>r. Disease r = label_classes rows ! i) rows = Some r" by auto
  then have "Disease r = label_classes rows ! i" by (auto simp: find_Some_iff)
  with r show ?thesis by blast
qed

lemma make_prediction_fields [simp]:
  "disease (make_prediction name conf r) = name"
  "confidence (make_prediction name conf r) = py_round2 conf"
  "carries_fields (make_prediction name conf r) r"
  by (simp_all add: make_prediction_def carries_fields_def)

lemma ml_loop_ok:
  assumes "\<forall>i\<in>set idxs. i < length probabilities \<and> i < length (label_classes rows)"
  shows "\<exists>ml. ml_loop rows probabilities idxs = Inr ml
           \<and> map disease ml
               = map (\<lambda>i. label_classes rows ! i) (filter (\<lambda>i. 1 / 100 < probabilities ! i) idxs)
           \<and> map confidence ml
               = map (\<lambda>i. py_round2 (probabilities ! i * 100))
                   (filter (\<lambda>i. 1 / 100 < probabilities ! i) idxs)
           \<and> (\<forall>p\<in>set ml. \<exists>r. find (\<lambda>r. Disease r = disease p) rows = Some r
                              \<and> carries_fields p r)"
  using assms
proof (induction idxs)
  case Nil
  show ?case by simp
next
  case (Cons idx rest)
  then obtain ml where ml: "ml_loop rows probabilities rest = Inr ml"
    and names: "map disease ml
               = map (\<lambda>i. label_classes rows ! i) (filter (\<lambda>i. 1 / 100 < probabilities ! i) rest)"
    and confs: "map confidence ml
               = map (\<lambda>i. py_round2 (probabilities ! i * 100))
                   (filter (\<lambda>i. 1 / 100 < probabilities ! i) rest)"
    and rows: "\<forall>p\<in>set ml. \<exists>r. find (\<lambda>r. Disease r = disease p) rows = Some r
                              \<and> carries_fields p r"
    by auto
  from Cons.prems have b: "idx < length probabilities" "idx < length (label_classes rows)"
    by auto
  show ?case
  proof (cases "1 / 100 < probabilities ! idx")
    case False
    then show ?thesis using ml names confs rows b by simp
  next
    case True
    obtain r where r: "find (\<lambda>r. Disease r = label_classes rows ! idx) rows = Some r"
      using find_label [OF b(2)] by blast
    have "ml_loop rows probabilities (idx # rest)
            = Inr (make_prediction (label_classes rows ! idx) (probabilities ! idx * 100) r # ml)"
      using True b ml r by (simp add: inverse_transform_def)
    then show ?thesis using True names confs rows r by simp
  qed
qed

lemma predict_diseases_ml_returns:
  assumes "length (predict_proba hp (preprocess_symptoms user_symptoms))
             = length (label_classes (df hp))"
  shows "\<exists>ml. predict_diseases_ml hp user_symptoms top_n = Inr ml
           \<and> (\<forall>p\<in>set ml. \<exists>r. find (\<lambda>r. Disease r = disease p) (df hp) = Some r
                              \<and> carries_fields p r)"
proof -
  let ?probs = "predict_proba hp (preprocess_symptoms user_symptoms)"
  have "\<forall>i\<in>set (py_take top_n (rev (np_argsort (tie_order hp) ?probs))).
          i < length ?probs \<and> i < length (label_classes (df hp))"
  proof
    fix i assume "i \<in> set (py_take top_n (rev (np_argsort (tie_order hp) ?probs)))"
    then have "i < length ?probs" by (rule top_indices_bound)
    then show "i < length ?probs \<and> i < length (label_classes (df hp))" using assms by simp
  qed
  from ml_loop_ok [OF this] show ?thesis
    by (auto simp: predict_diseases_ml_def Let_def)
qed

text \<open>
  C10: when \<open>predict_proba\<close> returns one probability per label, \<open>predict_diseases_ml\<close>
  does not raise, and every candidate it returns carries the severity, precautions, diet
  recommendations, description and symptoms of the first catalog row whose \<open>Disease\<close>
  equals the candidate's label, also when a later row has the same name.
\<close>

theorem ml_candidates_use_first_row:
  assumes "length (predict_proba hp (preprocess_symptoms user_symptoms))
             = length (label_classes (df hp))"
  shows "\<exists>ml. predict_diseases_ml hp user_symptoms top_n = Inr ml
           \<and> (\<forall>p\<in>set ml. \<exists>r. find (\<lambda>r. Disease r = disease p) (df hp) = Some r
                              \<and> carries_fields p r)"
  using assms by (rule predict_diseases_ml_returns)

theorem ml_candidates_use_first_row_witness:
  "length (predict_proba
             (example_predictor
                [row ''Flu'' ''fever;cough;chills'' ''Moderate'',
                 row ''Common Cold'' ''fever;cough'' ''Mild'',
                 row ''Flu'' ''fever;body ache'' ''Severe'']
                [1 / 2, 1 / 4, 0] [1 / 4, 3 / 4]) (preprocess_symptoms ''fever, chills''))
     = length (label_classes
                [row ''Flu'' ''fever;cough;chills'' ''Moderate'',
                 row ''Common Cold'' ''fever;cough'' ''Mild'',
                 row ''Flu'' ''fever;body ache'' ''Severe''])
   \<and> predict_diseases_ml
         (example_predictor
            [row ''Flu'' ''fever;cough;chills'' ''Moderate'',
             row ''Common Cold'' ''fever;cough'' ''Mild'',
             row ''Flu'' ''fever;body ache'' ''Severe'']
            [1 / 2, 1 / 4, 0] [1 / 4, 3 / 4]) ''fever, chills'' 3
       = Inr [make_prediction ''Flu'' 75 (row ''Flu'' ''fever;cough;chills'' ''Moderate''),
              make_prediction ''Common Cold'' 25 (row ''Common Cold'' ''fever;cough'' ''Mild'')]
   \<and> (\<exists>r. find (\<lambda>r. Disease r = ''Flu'')
              [row ''Flu'' ''fever;cough;chills'' ''Moderate'',
               row ''Common Cold'' ''fever;cough'' ''Mild'',
               row ''Flu'' ''fever;body ache'' ''Severe''] = Some r
          \<and> carries_fields (make_prediction ''Flu'' 75 (row ''Flu'' ''fever;cough;chills'' ''Moderate'')) r)"
proof -
  let ?rows = "[row ''Flu'' ''fever;cough;chills'' ''Moderate'',
                row ''Common Cold'' ''fever;cough'' ''Mild'',
                row ''Flu'' ''fever;body ache'' ''Severe'']"
  let ?hp = "example_predictor ?rows [1 / 2, 1 / 4, 0] [1 / 4, 3 / 4]"
  let ?flu = "make_prediction ''Flu'' 75 (row ''Flu'' ''fever;cough;chills'' ''Moderate'')"
  have d: "df ?hp = ?rows" by (simp add: example_predictor_def)
  have h: "length (predict_proba ?hp (preprocess_symptoms ''fever, chills''))
             = length (label_classes (df ?hp))"
    by code_simp
  have v: "predict_diseases_ml ?hp ''fever, chills'' 3
             = Inr [?flu, make_prediction ''Common Cold'' 25 (row ''Common Cold'' ''fever;cough'' ''Mild'')]"
    by code_simp
  from ml_candidates_use_first_row [OF h, of 3] v
  have "\<exists>r. find (\<lambda>r. Disease r = disease ?flu) (df ?hp) = Some r \<and> carries_fields ?flu r"
    by auto
  then have "\<exists>r. find (\<lambda>r. Disease r = ''Flu'') ?rows = Some r \<and> carries_fields ?flu r"
    by (simp only: d make_prediction_fields)
  with h v d show ?thesis by simp
qed

subsection \<open>The hybrid ranker\<close>

lemma find_snoc:
  "find P (xs @ [x]) = (case find P xs of Some y \<Rightarrow> Some y | None \<Rightarrow> if P x then Some x else None)"
  by (induction xs) auto

lemma map_of_fold_add_similarity:
  "map_of (fold add_similarity sim cs) d =
     (case find (\<lambda>q. disease q = d) (rev sim) of
        None \<Rightarrow> map_of cs d
      | Some q \<Rightarrow> Some (q, confidence q * (6 / 10)))"
proof (induction sim arbitrary: cs)
  case Nil
  show ?case by simp
next
  case (Cons p ps)
  have "map_of (fold add_similarity (p # ps) cs) d
          = map_of (fold add_similarity ps (add_similarity p cs)) d" by simp
  also have "\<dots> = (case find (\<lambda>q. disease q = d) (rev ps) of
                        None \<Rightarrow> map_of (add_similarity p cs) d
                      | Some q \<Rightarrow> Some (q, confidence q * (6 / 10)))"
    by (rule Cons.IH)
  also have "\<dots> = (case find (\<lambda>q. disease q = d) (rev (p # ps)) of
                        None \<Rightarrow> map_of cs d
                      | Some q \<Rightarrow> Some (q, confidence q * (6 / 10)))"
    by (simp add: find_snoc add_similarity_def update_conv' split: option.split)
  finally show ?case .
qed

lemma map_of_add_ml_other:
  "disease p \<noteq> d \<Longrightarrow> map_of (add_ml p cs) d = map_of cs d"
  by (simp add: add_ml_def update_conv' split: option.split)

lemma map_of_add_ml_same:
  "map_of (add_ml p cs) (disease p) =
     (case map_of cs (disease p) of
        Some (info, score) \<Rightarrow> Some (info, score + confidence p * (4 / 10))
      | None \<Rightarrow> Some (p, confidence p * (4 / 10)))"
  by (simp add: add_ml_def update_conv' split: option.split)

lemma map_of_fold_add_ml_absent:
  "d \<notin> disease ` set ml \<Longrightarrow> map_of (fold add_ml ml cs) d = map_of cs d"
  by (induction ml arbitrary: cs) (auto simp: map_of_add_ml_other)

lemma map_of_fold_add_ml:
  assumes "distinct (map disease ml)"
  shows "map_of (fold add_ml ml cs) d =
     (case find (\<lambda>q. disease q = d) ml of
        None \<Rightarrow> map_of cs d
      | Some c \<Rightarrow>
          (case map_of cs d of
             Some (info, score) \<Rightarrow> Some (info, score + confidence c * (4 / 10))
           | None \<Rightarrow> Some (c, confidence c * (4 / 10))))"
  using assms
proof (induction ml arbitrary: cs)
  case Nil
  show ?case by simp
next
  case (Cons p ps)
  show ?case
  proof (cases "disease p = d")
    case True
    then have "d \<notin> disease ` set ps" using Cons.prems by auto
    then have "map_of (fold add_ml ps (add_ml p cs)) d = map_of (add_ml p cs) d"
      by (rule map_of_fold_add_ml_absent)
    then show ?thesis using True map_of_add_ml_same [of p cs] by simp
  next
    case False
    have "distinct (map disease ps)" using Cons.prems by simp
    note ih = Cons.IH [OF this, of "add_ml p cs"]
    have o: "map_of (add_ml p cs) d = map_of cs d" using False by (rule map_of_add_ml_other)
    have "map_of (fold add_ml (p # ps) cs) d = map_of (fold add_ml ps (add_ml p cs)) d" by simp
    also note ih
    finally show ?thesis unfolding o using False by simp
  qed
qed

lemma distinct_keys_add_similarity:
  "distinct (map fst cs) \<Longrightarrow> distinct (map fst (add_similarity p cs))"
  by (simp add: add_similarity_def distinct_update)

lemma distinct_keys_add_ml:
  "distinct (map fst cs) \<Longrightarrow> distinct (map fst (add_ml p cs))"
  by (simp add: add_ml_def distinct_update split: option.split)

lemma distinct_keys_fold_add_similarity:
  "distinct (map fst cs) \<Longrightarrow> distinct (map fst (fold add_similarity sim cs))"
  by (induction sim arbitrary: cs) (simp_all add: distinct_keys_add_similarity)

lemma distinct_keys_fold_add_ml:
  "distinct (map fst cs) \<Longrightarrow> distinct (map fst (fold add_ml ml cs))"
  by (induction ml arbitrary: cs) (simp_all add: distinct_keys_add_ml)

lemma distinct_keys_combine_scores: "distinct (map fst (combine_scores sim ml))"
  by (simp add: combine_scores_def distinct_keys_fold_add_ml distinct_keys_fold_add_similarity)

lemma map_of_combine_scores:
  assumes "distinct (map disease ml)"
  shows "map_of (combine_scores sim ml) d =
     (case (find (\<lambda>q. disease q = d) (rev sim), find (\<lambda>q. disease q = d) ml) of
        (Some s, Some c) \<Rightarrow> Some (s, confidence s * (6 / 10) + confidence c * (4 / 10))
      | (Some s, None) \<Rightarrow> Some (s, confidence s * (6 / 10))
      | (None, Some c) \<Rightarrow> Some (c, confidence c * (4 / 10))
      | (None, None) \<Rightarrow> None)"
  by (simp add: combine_scores_def map_of_fold_add_ml [OF assms] map_of_fold_add_similarity
        split: option.split)

lemma ml_loop_names:
  assumes "ml_loop rows probabilities idxs = Inr ml"
  shows "map disease ml
           = map (\<lambda>i. label_classes rows ! i) (filter (\<lambda>i. 1 / 100 < probabilities ! i) idxs)
       \<and> (\<forall>i\<in>set (filter (\<lambda>i. 1 / 100 < probabilities ! i) idxs). i < length (label_classes rows))"
  using assms
proof (induction idxs arbitrary: ml)
  case Nil
  then show ?case by simp
next
  case (Cons idx rest)
  show ?case
  proof (cases "1 / 100 < probabilities ! idx")
    case False
    then have "ml_loop rows probabilities rest = Inr ml"
      using Cons.prems by (simp split: if_splits)
    then show ?thesis using Cons.IH False by simp
  next
    case True
    from Cons.prems True obtain r ml' where
      b: "idx < length (label_classes rows)"
      and rest: "ml_loop rows probabilities rest = Inr ml'"
      and ml: "ml = make_prediction (label_classes rows ! idx) (probabilities ! idx * 100) r # ml'"
      by (auto simp: inverse_transform_def split: if_splits option.splits sum.splits)
    from Cons.IH [OF rest] show ?thesis using True b ml by simp
  qed
qed

lemma distinct_ml_names:
  assumes "predict_diseases_ml hp user_symptoms top_n = Inr ml"
  shows "distinct (map disease ml)"
proof -
  let ?probs = "predict_proba hp (preprocess_symptoms user_symptoms)"
  let ?idxs = "filter (\<lambda>i. 1 / 100 < ?probs ! i) (py_take top_n (rev (np_argsort (tie_order hp) ?probs)))"
  from assms have "ml_loop (df hp) ?probs (py_take top_n (rev (np_argsort (tie_order hp) ?probs))) = Inr ml"
    by (simp add: predict_diseases_ml_def Let_def)
  from ml_loop_names [OF this]
  have names: "map disease ml = map (\<lambda>i. label_classes (df hp) ! i) ?idxs"
    and bound: "\<forall>i\<in>set ?idxs. i < length (label_classes (df hp))" by auto
  have "distinct ?idxs" by (simp add: distinct_top_indices)
  moreover have "inj_on (\<lambda>i. label_classes (df hp) ! i) (set ?idxs)"
    using inj_on_nth [OF distinct_label_classes bound] .
  ultimately show ?thesis using names by (simp add: distinct_map)
qed

lemma set_sort_by_score: "set (sort_by_score cs) = set cs"
  by (simp add: sort_by_score_def)

lemma hybrid_output_entry:
  assumes "hybrid_prediction hp user_symptoms top_n = Inr out"
    and "predict_diseases_similarity hp user_symptoms top_n = Inr sim"
    and "predict_diseases_ml hp user_symptoms top_n = Inr ml"
    and "p \<in> set out"
  shows "\<exists>d info score. map_of (combine_scores sim ml) d = Some (info, score)
           \<and> p = info\<lparr>confidence := py_round2 score\<rparr>"
proof -
  from assms(1-3) have "out = map finalize (py_take top_n (sort_by_score (combine_scores sim ml)))"
    by (simp add: hybrid_prediction_def)
  with assms(4) obtain e where e: "e \<in> set (py_take top_n (sort_by_score (combine_scores sim ml)))"
    and p: "p = finalize e" by auto
  from e have "e \<in> set (sort_by_score (combine_scores sim ml))"
    by (rule set_py_take [THEN subsetD])
  then have mem: "e \<in> set (combine_scores sim ml)"
    by (simp only: set_sort_by_score)
  obtain d info score where t: "e = (d, info, score)" by (cases e) auto
  have "map_of (combine_scores sim ml) d = Some (info, score)"
    using mem unfolding t by (simp only: map_of_eq_Some_iff [OF distinct_keys_combine_scores])
  moreover have "p = info\<lparr>confidence := py_round2 score\<rparr>"
    using p by (simp add: t finalize_def)
  ultimately show ?thesis by blast
qed

lemma hybrid_confidence_cases:
  assumes "predict_diseases_similarity hp user_symptoms top_n = Inr sim"
    and "predict_diseases_ml hp user_symptoms top_n = Inr ml"
    and "hybrid_prediction hp user_symptoms top_n = Inr out"
    and "p \<in> set out"
  shows "case (find (\<lambda>q. disease q = disease p) (rev sim), find (\<lambda>q. disease q = disease p) ml) of
           (Some s, Some c) \<Rightarrow>
             confidence p = py_round2 (6 / 10 * confidence s + 4 / 10 * confidence c)
         | (Some s, None) \<Rightarrow> confidence p = py_round2 (6 / 10 * confidence s)
         | (None, Some c) \<Rightarrow> confidence p = py_round2 (4 / 10 * confidence c)
         | (None, None) \<Rightarrow> False"
proof -
  from hybrid_output_entry [OF assms(3) assms(1) assms(2) assms(4)]
  obtain d info score where m: "map_of (combine_scores sim ml) d = Some (info, score)"
    and p: "p = info\<lparr>confidence := py_round2 score\<rparr>" by blast
  have dist: "distinct (map disease ml)" using assms(2) by (rule distinct_ml_names)
  note c = map_of_combine_scores [OF dist, of sim d]
  have found: "find (\<lambda>q. disease q = d) xs = Some q \<Longrightarrow> disease q = d"
    for xs :: "prediction list" and q
    by (auto simp: find_Some_iff)
  have cp: "confidence p = py_round2 score" using p by simp
  show ?thesis
  proof (cases "find (\<lambda>q. disease q = d) (rev sim)")
    case None
    note s = this
    show ?thesis
    proof (cases "find (\<lambda>q. disease q = d) ml")
      case None
      with s m c show ?thesis by simp
    next
      case (Some b)
      have "map_of (combine_scores sim ml) d = Some (b, confidence b * (4 / 10))"
        unfolding c s Some by simp
      from trans [OF m [symmetric] this]
      have i: "info = b" and sc: "score = confidence b * (4 / 10)"
        by (simp_all only: option.inject prod.inject)
      have "disease p = d" using p i found [OF Some] by simp
      then show ?thesis using s Some cp sc by (simp add: mult.commute)
    qed
  next
    case (Some a)
    note s = this
    show ?thesis
    proof (cases "find (\<lambda>q. disease q = d) ml")
      case None
      have "map_of (combine_scores sim ml) d = Some (a, confidence a * (6 / 10))"
        unfolding c s None by simp
      from trans [OF m [symmetric] this]
      have i: "info = a" and sc: "score = confidence a * (6 / 10)"
        by (simp_all only: option.inject prod.inject)
      have "disease p = d" using p i found [OF s] by simp
      then show ?thesis using s None cp sc by (simp add: mult.commute)
    next
      case (Some b)
      have "map_of (combine_scores sim ml) d
              = Some (a, confidence a * (6 / 10) + confidence b * (4 / 10))"
        unfolding c s Some by simp
      from trans [OF m [symmetric] this]
      have i: "info = a"
        and sc: "score = confidence a * (6 / 10) + confidence b * (4 / 10)"
        by (simp_all only: option.inject prod.inject)
      have "disease p = d" using p i found [OF s] by simp
      then show ?thesis using s Some cp sc by (simp add: mult.commute)
    qed
  qed
qed

lemma find_distinct_key:
  "distinct (map f xs) \<Longrightarrow> x \<in> set xs \<Longrightarrow> find (\<lambda>q. f q = f x) xs = Some x"
  by (induction xs) (auto simp: rev_image_eqI)

lemma find_absent_key: "d \<notin> f ` set xs \<Longrightarrow> find (\<lambda>q. f q = d) xs = None"
  by (auto simp: find_None_iff)

lemma similarity_loop_names:
  assumes "similarity_loop rows similarities idxs = Inr sim"
  shows "map disease sim
           = map (\<lambda>i. map Disease rows ! i) (filter (\<lambda>i. 0 < similarities ! i) idxs)
       \<and> (\<forall>i\<in>set (filter (\<lambda>i. 0 < similarities ! i) idxs). i < length (map Disease rows))"
  using assms
proof (induction idxs arbitrary: sim)
  case Nil
  then show ?case by simp
next
  case (Cons idx rest)
  show ?case
  proof (cases "0 < similarities ! idx")
    case False
    then have "similarity_loop rows similarities rest = Inr sim"
      using Cons.prems by (simp split: if_splits)
    then show ?thesis using Cons.IH False by simp
  next
    case True
    from Cons.prems True obtain sim' where
      b: "idx < length rows"
      and rest: "similarity_loop rows similarities rest = Inr sim'"
      and sim: "sim = make_prediction (Disease (rows ! idx)) (similarities ! idx * 100) (rows ! idx) # sim'"
      by (auto split: if_splits sum.splits)
    from Cons.IH [OF rest] show ?thesis using True b sim by simp
  qed
qed

lemma distinct_similarity_names:
  assumes "distinct (map Disease (df hp))"
    and "predict_diseases_similarity hp user_symptoms top_n = Inr sim"
  shows "distinct (map disease sim)"
proof -
  let ?sims = "calculate_similarity_scores hp user_symptoms"
  let ?idxs = "filter (\<lambda>i. 0 < ?sims ! i) (py_take top_n (rev (np_argsort (tie_order hp) ?sims)))"
  from assms(2)
  have "similarity_loop (df hp) ?sims (py_take top_n (rev (np_argsort (tie_order hp) ?sims))) = Inr sim"
    by (simp add: predict_diseases_similarity_def Let_def)
  from similarity_loop_names [OF this]
  have names: "map disease sim = map (\<lambda>i. map Disease (df hp) ! i) ?idxs"
    and bound: "\<forall>i\<in>set ?idxs. i < length (map Disease (df hp))" by auto
  have "distinct ?idxs" by (simp add: distinct_top_indices)
  moreover have "inj_on (\<lambda>i. map Disease (df hp) ! i) (set ?idxs)"
    using inj_on_nth [OF assms(1) bound] .
  ultimately show ?thesis using names by (simp add: distinct_map)
qed

text \<open>
  C3: when the disease names of the similarity output are distinct (they are whenever the
  names of the catalog are), every candidate emitted by \<open>hybrid_prediction\<close> for a
  disease that is in the similarity output with confidence \<open>S\<close> and in the classifier
  output with confidence \<open>C\<close> has confidence \<open>round(0.6 * S + 0.4 * C, 2)\<close>; for a
  disease in the similarity output only it is \<open>round(0.6 * S, 2)\<close> and for a disease in
  the classifier output only \<open>round(0.4 * C, 2)\<close>; every emitted disease is in one of
  the two outputs.
\<close>

theorem hybrid_confidence_blend:
  assumes "predict_diseases_similarity hp user_symptoms top_n = Inr sim"
    and "predict_diseases_ml hp user_symptoms top_n = Inr ml"
    and "hybrid_prediction hp user_symptoms top_n = Inr out"
    and "distinct (map disease sim)"
    and "p \<in> set out"
  shows "(\<forall>s\<in>set sim. \<forall>c\<in>set ml. disease s = disease p \<and> disease c = disease p
            \<longrightarrow> confidence p = py_round2 (6 / 10 * confidence s + 4 / 10 * confidence c))
       \<and> (\<forall>s\<in>set sim. disease s = disease p \<and> disease p \<notin> disease ` set ml
            \<longrightarrow> confidence p = py_round2 (6 / 10 * confidence s))
       \<and> (\<forall>c\<in>set ml. disease c = disease p \<and> disease p \<notin> disease ` set sim
            \<longrightarrow> confidence p = py_round2 (4 / 10 * confidence c))
       \<and> disease p \<in> disease ` (set sim \<union> set ml)"
proof -
  note cases = hybrid_confidence_cases [OF assms(1) assms(2) assms(3) assms(5)]
  have dm: "distinct (map disease ml)" using assms(2) by (rule distinct_ml_names)
  have dr: "distinct (map disease (rev sim))" using assms(4) by (simp add: rev_map [symmetric])
  have fs: "find (\<lambda>q. disease q = disease p) (rev sim) = Some s"
    if "s \<in> set sim" and "disease s = disease p" for s
    using find_distinct_key [OF dr, of s] that by simp
  have fm: "find (\<lambda>q. disease q = disease p) ml = Some c"
    if "c \<in> set ml" and "disease c = disease p" for c
    using find_distinct_key [OF dm, of c] that by simp
  have ns: "find (\<lambda>q. disease q = disease p) (rev sim) = None"
    if "disease p \<notin> disease ` set sim"
    using find_absent_key [of "disease p" disease "rev sim"] that by simp
  have nm: "find (\<lambda>q. disease q = disease p) ml = None"
    if "disease p \<notin> disease ` set ml"
    using that by (rule find_absent_key)
  have both: "confidence p = py_round2 (6 / 10 * confidence s + 4 / 10 * confidence c)"
    if "s \<in> set sim" "c \<in> set ml" "disease s = disease p" "disease c = disease p" for s c
    using cases fs [OF that(1,3)] fm [OF that(2,4)] by simp
  have only_sim: "confidence p = py_round2 (6 / 10 * confidence s)"
    if "s \<in> set sim" "disease s = disease p" "disease p \<notin> disease ` set ml" for s
    using cases fs [OF that(1,2)] nm [OF that(3)] by simp
  have only_ml: "confidence p = py_round2 (4 / 10 * confidence c)"
    if "c \<in> set ml" "disease c = disease p" "disease p \<notin> disease ` set sim" for c
    using cases ns [OF that(3)] fm [OF that(1,2)] by simp
  have some: "disease p \<in> disease ` (set sim \<union> set ml)"
  proof (rule ccontr)
    assume "\<not> ?thesis"
    then have "disease p \<notin> disease ` set sim" and "disease p \<notin> disease ` set ml" by auto
    then show False using cases ns nm by simp
  qed
  show ?thesis using both only_sim only_ml some by blast
qed

theorem hybrid_confidence_blend_witness:
  "predict_diseases_similarity (example_predictor [flu_row, cold_row] [1 / 2, 0] [1 / 4, 3 / 4])
       ''fever, chills'' 3
     = Inr [make_prediction ''Flu'' 50 flu_row]
   \<and> predict_diseases_ml (example_predictor [flu_row, cold_row] [1 / 2, 0] [1 / 4, 3 / 4])
       ''fever, chills'' 3
     = Inr [make_prediction ''Flu'' 75 flu_row, make_prediction ''Common Cold'' 25 cold_row]
   \<and> hybrid_prediction (example_predictor [flu_row, cold_row] [1 / 2, 0] [1 / 4, 3 / 4])
       ''fever, chills'' 3
     = Inr [(make_prediction ''Flu'' 50 flu_row)\<lparr>confidence := 60\<rparr>,
            (make_prediction ''Common Cold'' 25 cold_row)\<lparr>confidence := 10\<rparr>]
   \<and> distinct (map disease [make_prediction ''Flu'' 50 flu_row])
   \<and> confidence ((make_prediction ''Flu'' 50 flu_row)\<lparr>confidence := 60\<rparr>)
       = py_round2 (6 / 10 * confidence (make_prediction ''Flu'' 50 flu_row)
                    + 4 / 10 * confidence (make_prediction ''Flu'' 75 flu_row))
   \<and> confidence ((make_prediction ''Common Cold'' 25 cold_row)\<lparr>confidence := 10\<rparr>)
       = py_round2 (4 / 10 * confidence (make_prediction ''Common Cold'' 25 cold_row))"
proof -
  let ?hp = "example_predictor [flu_row, cold_row] [1 / 2, 0] [1 / 4, 3 / 4]"
  let ?s = "make_prediction ''Flu'' 50 flu_row"
  let ?c = "make_prediction ''Flu'' 75 flu_row"
  let ?k = "make_prediction ''Common Cold'' 25 cold_row"
  let ?p = "?s\<lparr>confidence := 60\<rparr>"
  let ?q = "?k\<lparr>confidence := 10\<rparr>"
  have s: "predict_diseases_similarity ?hp ''fever, chills'' 3 = Inr [?s]" by code_simp
  have m: "predict_diseases_ml ?hp ''fever, chills'' 3 = Inr [?c, ?k]" by code_simp
  have h: "hybrid_prediction ?hp ''fever, chills'' 3 = Inr [?p, ?q]" by code_simp
  have d: "distinct (map disease [?s])" by simp
  have p: "?p \<in> set [?p, ?q]" and q: "?q \<in> set [?p, ?q]" by simp_all
  have n: "disease ?q \<notin> disease ` set [?s]" by code_simp
  have "confidence ?p = py_round2 (6 / 10 * confidence ?s + 4 / 10 * confidence ?c)"
    using hybrid_confidence_blend [OF s m h d p] by simp
  moreover have "confidence ?q = py_round2 (4 / 10 * confidence ?k)"
    using hybrid_confidence_blend [OF s m h d q] n by simp
  ultimately show ?thesis using s m h d by blast
qed

lemma update_append_new: "k \<notin> fst ` set al \<Longrightarrow> AList.update k v al = al @ [(k, v)]"
  by (induction al) auto

lemma fold_add_ml_fresh:
  assumes "distinct (map disease ml)" and "disease ` set ml \<inter> fst ` set cs = {}"
  shows "fold add_ml ml cs = cs @ map (\<lambda>q. (disease q, q, confidence q * (4 / 10))) ml"
  using assms
proof (induction ml arbitrary: cs)
  case Nil
  show ?case by simp
next
  case (Cons p ps)
  from Cons.prems have fresh: "disease p \<notin> fst ` set cs" by auto
  then have none: "map_of cs (disease p) = None" by (simp add: map_of_eq_None_iff)
  have step: "add_ml p cs = cs @ [(disease p, p, confidence p * (4 / 10))]"
    by (simp add: add_ml_def none update_append_new [OF fresh])
  have d: "distinct (map disease ps)" using Cons.prems by simp
  have "disease ` set ps \<inter> fst ` set (add_ml p cs) = {}"
    using Cons.prems unfolding step by auto
  from Cons.IH [OF d this] show ?case by (simp add: step)
qed

lemma combine_scores_ml_only:
  "distinct (map disease ml)
     \<Longrightarrow> combine_scores [] ml = map (\<lambda>q. (disease q, q, confidence q * (4 / 10))) ml"
  using fold_add_ml_fresh [of ml "[]"] by (simp add: combine_scores_def)

lemma similarity_loop_zero:
  "\<forall>i\<in>set idxs. i < length similarities \<and> similarities ! i = 0
     \<Longrightarrow> similarity_loop rows similarities idxs = Inr []"
  by (induction idxs) auto

lemma length_py_take_le: "0 \<le> n \<Longrightarrow> length (py_take n xs) \<le> nat n"
  by (simp add: py_take_def)

lemma ml_loop_length: "ml_loop rows probabilities idxs = Inr ml \<Longrightarrow> length ml \<le> length idxs"
proof (induction idxs arbitrary: ml)
  case Nil
  then show ?case by simp
next
  case (Cons idx rest)
  show ?case
  proof (cases "1 / 100 < probabilities ! idx")
    case False
    then have "ml_loop rows probabilities rest = Inr ml"
      using Cons.prems by (simp split: if_splits)
    from Cons.IH [OF this] show ?thesis by simp
  next
    case True
    from Cons.prems True obtain q ml' where
      rest: "ml_loop rows probabilities rest = Inr ml'" and ml: "ml = q # ml'"
      by (auto simp: inverse_transform_def split: if_splits option.splits sum.splits)
    from Cons.IH [OF rest] show ?thesis using ml by simp
  qed
qed

lemma sum_list_le_bound:
  fixes c :: rat
  shows "\<forall>x\<in>set xs. x \<le> c \<Longrightarrow> sum_list xs \<le> of_nat (length xs) * c"
  by (induction xs) (auto simp: algebra_simps)

lemma sorted_le_last: "sorted xs \<Longrightarrow> x \<in> set xs \<Longrightarrow> x \<le> last xs"
  by (induction xs) auto

lemma np_argsort_sorted: "sorted (map (\<lambda>i. xs ! i) (np_argsort ties xs))"
proof -
  have "sorted (map (\<lambda>i. (xs ! i, ties xs i)) (np_argsort ties xs))"
    unfolding np_argsort_def by (rule sorted_sort_key)
  then have "sorted_wrt (\<lambda>i j. (xs ! i, ties xs i) \<le> (xs ! j, ties xs j)) (np_argsort ties xs)"
    by (simp add: sorted_map)
  then have "sorted_wrt (\<lambda>i j. xs ! i \<le> xs ! j) (np_argsort ties xs)"
    by (rule sorted_wrt_mono_rel [rotated]) (auto simp: less_eq_prod_def)
  then show ?thesis by (simp add: sorted_map)
qed

lemma np_argsort_last_max:
  assumes "i < length xs"
  shows "xs ! i \<le> xs ! last (np_argsort ties xs)"
proof -
  let ?A = "np_argsort ties xs"
  have ne: "?A \<noteq> []" using assms set_np_argsort [of ties xs] by auto
  have "sorted (map (\<lambda>i. xs ! i) ?A)" by (rule np_argsort_sorted)
  moreover have "xs ! i \<in> set (map (\<lambda>i. xs ! i) ?A)" using assms set_np_argsort [of ties xs] by auto
  ultimately have "xs ! i \<le> last (map (\<lambda>i. xs ! i) ?A)" by (rule sorted_le_last)
  then show ?thesis using ne by (simp add: last_map)
qed

lemma some_probability_above_threshold:
  fixes probabilities :: "rat list"
  assumes "sum_list probabilities = 1" and "length probabilities < 100"
  shows "probabilities \<noteq> [] \<and> 1 / 100 < probabilities ! last (np_argsort ties probabilities)"
proof -
  have ne: "probabilities \<noteq> []" using assms(1) by auto
  have "1 / 100 < probabilities ! last (np_argsort ties probabilities)"
  proof (rule ccontr)
    assume "\<not> 1 / 100 < probabilities ! last (np_argsort ties probabilities)"
    then have top: "probabilities ! last (np_argsort ties probabilities) \<le> 1 / 100" by simp
    have "\<forall>x\<in>set probabilities. x \<le> 1 / 100"
    proof
      fix x assume "x \<in> set probabilities"
      then obtain i where "i < length probabilities" and "x = probabilities ! i"
        by (auto simp: in_set_conv_nth)
      then show "x \<le> 1 / 100" using np_argsort_last_max [of i probabilities ties] top by simp
    qed
    then have "sum_list probabilities \<le> of_nat (length probabilities) * (1 / 100)"
      by (rule sum_list_le_bound)
    also have "\<dots> < 1" using assms(2) by simp
    finally show False using assms(1) by simp
  qed
  with ne show ?thesis by simp
qed

lemma predict_diseases_ml_votes:
  assumes "predict_diseases_ml hp user_symptoms top_n = Inr ml"
    and "1 \<le> top_n"
    and "sum_list (predict_proba hp (preprocess_symptoms user_symptoms)) = 1"
    and "length (predict_proba hp (preprocess_symptoms user_symptoms)) < 100"
  shows "ml \<noteq> []"
proof -
  let ?probs = "predict_proba hp (preprocess_symptoms user_symptoms)"
  let ?L = "rev (np_argsort (tie_order hp) ?probs)"
  from some_probability_above_threshold [OF assms(3,4)]
  have ne: "?probs \<noteq> []" and big: "1 / 100 < ?probs ! last (np_argsort (tie_order hp) ?probs)" by auto
  have "length ?L = length ?probs" by (simp add: np_argsort_def)
  then obtain m rest where L: "?L = m # rest" using ne by (cases ?L) auto
  then have m: "m = last (np_argsort (tie_order hp) ?probs)" by (metis hd_rev list.sel(1))
  obtain k where k: "nat top_n = Suc k" using assms(2) by (cases "nat top_n") auto
  have "py_take top_n ?L = m # take k rest"
    using assms(2) by (simp add: py_take_def L k)
  then have loop: "ml_loop (df hp) ?probs (m # take k rest) = Inr ml"
    using assms(1) by (simp add: predict_diseases_ml_def Let_def)
  from ml_loop_names [OF loop]
  have "map disease ml =
          map (\<lambda>i. label_classes (df hp) ! i)
            (filter (\<lambda>i. 1 / 100 < ?probs ! i) (m # take k rest))" by simp
  then show ?thesis using big m by auto
qed

text \<open>
  An input with no vocabulary overlap still gets the classifier's candidates.
\<close>

theorem hybrid_prediction_zero_overlap_not_empty:
  "list_all (\<lambda>s. s = 0)
     (cosine (example_predictor [flu_row, cold_row] [0, 0] [1 / 4, 3 / 4])
        (preprocess_symptoms ''blurred vision''))
   \<and> hybrid_prediction (example_predictor [flu_row, cold_row] [0, 0] [1 / 4, 3 / 4])
        ''blurred vision'' 3
      = Inr [(make_prediction ''Flu'' 75 flu_row)\<lparr>confidence := 30\<rparr>,
             (make_prediction ''Common Cold'' 25 cold_row)\<lparr>confidence := 10\<rparr>]"
  by code_simp

text \<open>
  C1, as the code has it: when every similarity score of the input is zero and
  \<open>predict_proba\<close> returns one probability per label, nothing raises, the similarity
  arm returns the empty list and \<open>hybrid_prediction\<close> returns the classifier arm's
  candidates rescored: each emitted candidate is a classifier candidate with confidence
  \<open>round(0.4 * C, 2)\<close>, and for \<open>top_n \<ge> 0\<close> there are as many as the classifier arm
  returned. The result is empty only when no top-N label has a probability above 0.01,
  which cannot be when \<open>top_n \<ge> 1\<close> and the probabilities of fewer than 100 labels sum
  to 1.
\<close>

theorem hybrid_prediction_zero_overlap:
  assumes "\<forall>s\<in>set (cosine hp (preprocess_symptoms user_symptoms)). s = 0"
    and "length (predict_proba hp (preprocess_symptoms user_symptoms))
           = length (label_classes (df hp))"
  shows "predict_diseases_similarity hp user_symptoms top_n = Inr []
       \<and> (\<exists>ml out. predict_diseases_ml hp user_symptoms top_n = Inr ml
             \<and> hybrid_prediction hp user_symptoms top_n = Inr out
             \<and> (0 \<le> top_n \<longrightarrow> length out = length ml)
             \<and> (\<forall>p\<in>set out. \<exists>q\<in>set ml.
                   p = q\<lparr>confidence := py_round2 (4 / 10 * confidence q)\<rparr>)
             \<and> (1 \<le> top_n
                  \<and> sum_list (predict_proba hp (preprocess_symptoms user_symptoms)) = 1
                  \<and> length (predict_proba hp (preprocess_symptoms user_symptoms)) < 100
                \<longrightarrow> out \<noteq> []))"
proof -
  let ?sims = "cosine hp (preprocess_symptoms user_symptoms)"
  let ?probs = "predict_proba hp (preprocess_symptoms user_symptoms)"
  have "\<forall>i\<in>set (py_take top_n (rev (np_argsort (tie_order hp) ?sims))). i < length ?sims \<and> ?sims ! i = 0"
  proof
    fix i assume "i \<in> set (py_take top_n (rev (np_argsort (tie_order hp) ?sims)))"
    then have "i < length ?sims" by (rule top_indices_bound)
    then show "i < length ?sims \<and> ?sims ! i = 0" using assms(1) nth_mem by blast
  qed
  then have sim: "predict_diseases_similarity hp user_symptoms top_n = Inr []"
    by (simp add: predict_diseases_similarity_def calculate_similarity_scores_def Let_def
          similarity_loop_zero)
  from predict_diseases_ml_returns [OF assms(2), of top_n]
  obtain ml where ml: "predict_diseases_ml hp user_symptoms top_n = Inr ml" by blast
  have dist: "distinct (map disease ml)" using ml by (rule distinct_ml_names)
  define scored where "scored = map (\<lambda>q. (disease q, q, confidence q * (4 / 10))) ml"
  define out where "out = map finalize (py_take top_n (sort_by_score scored))"
  have hyb: "hybrid_prediction hp user_symptoms top_n = Inr out"
    by (simp add: hybrid_prediction_def sim ml combine_scores_ml_only [OF dist] out_def scored_def)
  have len: "length out = length ml" if "0 \<le> top_n"
  proof -
    have "ml_loop (df hp) ?probs (py_take top_n (rev (np_argsort (tie_order hp) ?probs))) = Inr ml"
      using ml by (simp add: predict_diseases_ml_def Let_def)
    then have "length ml \<le> length (py_take top_n (rev (np_argsort (tie_order hp) ?probs)))"
      by (rule ml_loop_length)
    also have "\<dots> \<le> nat top_n" using that by (rule length_py_take_le)
    finally have "length ml \<le> nat top_n" .
    then show ?thesis using that
      by (simp add: out_def scored_def py_take_def sort_by_score_def)
  qed
  have mem: "\<exists>q\<in>set ml. p = q\<lparr>confidence := py_round2 (4 / 10 * confidence q)\<rparr>"
    if "p \<in> set out" for p
  proof -
    from that obtain e where e: "e \<in> set (py_take top_n (sort_by_score scored))"
      and p: "p = finalize e" unfolding out_def by auto
    from e have "e \<in> set (sort_by_score scored)" by (rule set_py_take [THEN subsetD])
    then have "e \<in> set scored" by (simp only: set_sort_by_score)
    then obtain q where "q \<in> set ml" and "e = (disease q, q, confidence q * (4 / 10))"
      unfolding scored_def by auto
    then show ?thesis using p by (auto simp: finalize_def mult.commute)
  qed
  have ne: "out \<noteq> []"
    if "1 \<le> top_n" and "sum_list ?probs = 1" and "length ?probs < 100"
  proof -
    have "ml \<noteq> []" using ml that by (rule predict_diseases_ml_votes)
    moreover have "length out = length ml" using that(1) by (intro len) simp
    ultimately show ?thesis by auto
  qed
  have "predict_diseases_ml hp user_symptoms top_n = Inr ml
      \<and> hybrid_prediction hp user_symptoms top_n = Inr out
      \<and> (0 \<le> top_n \<longrightarrow> length out = length ml)
      \<and> (\<forall>p\<in>set out. \<exists>q\<in>set ml.
            p = q\<lparr>confidence := py_round2 (4 / 10 * confidence q)\<rparr>)
      \<and> (1 \<le> top_n \<and> sum_list ?probs = 1 \<and> length ?probs < 100 \<longrightarrow> out \<noteq> [])"
    using ml hyb len mem ne by simp
  then show ?thesis using sim by blast
qed

theorem hybrid_prediction_zero_overlap_witness:
  "list_all (\<lambda>s. s = 0)
     (cosine (example_predictor [flu_row, cold_row] [0, 0] [1 / 4, 3 / 4])
        (preprocess_symptoms ''blurred vision''))
   \<and> predict_diseases_similarity (example_predictor [flu_row, cold_row] [0, 0] [1 / 4, 3 / 4])
        ''blurred vision'' 3 = Inr []
   \<and> predict_diseases_ml (example_predictor [flu_row, cold_row] [0, 0] [1 / 4, 3 / 4])
        ''blurred vision'' 3
      = Inr [make_prediction ''Flu'' 75 flu_row, make_prediction ''Common Cold'' 25 cold_row]
   \<and> (\<exists>out. hybrid_prediction (example_predictor [flu_row, cold_row] [0, 0] [1 / 4, 3 / 4])
               ''blurred vision'' 3 = Inr out \<and> length out = 2)"
proof -
  let ?hp = "example_predictor [flu_row, cold_row] [0, 0] [1 / 4, 3 / 4]"
  have z: "list_all (\<lambda>s. s = 0) (cosine ?hp (preprocess_symptoms ''blurred vision''))"
    by code_simp
  then have h1: "\<forall>s\<in>set (cosine ?hp (preprocess_symptoms ''blurred vision'')). s = 0"
    by (simp only: list_all_iff)
  have h2: "length (predict_proba ?hp (preprocess_symptoms ''blurred vision''))
              = length (label_classes (df ?hp))" by code_simp
  have m: "predict_diseases_ml ?hp ''blurred vision'' 3
             = Inr [make_prediction ''Flu'' 75 flu_row, make_prediction ''Common Cold'' 25 cold_row]"
    by code_simp
  from hybrid_prediction_zero_overlap [OF h1 h2, of 3] m z show ?thesis by auto
qed

subsection \<open>The similarity arm\<close>

lemma insort_key_index_order:
  fixes f :: "nat \<Rightarrow> 'k::linorder"
  assumes "sorted_wrt (\<lambda>i j. f i < f j \<or> (f i = f j \<and> i < j)) ys"
    and "\<forall>y\<in>set ys. x < y"
  shows "sorted_wrt (\<lambda>i j. f i < f j \<or> (f i = f j \<and> i < j)) (insort_key f x ys)"
  using assms
proof (induction ys)
  case Nil
  show ?case by simp
next
  case (Cons y ys)
  show ?case
  proof (cases "f x \<le> f y")
    case True
    have "f x < f z \<or> (f x = f z \<and> x < z)" if "z \<in> set (y # ys)" for z
    proof -
      have "f y \<le> f z" using that Cons.prems(1) by auto
      moreover have "x < z" using that Cons.prems(2) by auto
      ultimately show ?thesis using True by auto
    qed
    then show ?thesis using True Cons.prems(1) by auto
  next
    case False
    have ih: "sorted_wrt (\<lambda>i j. f i < f j \<or> (f i = f j \<and> i < j)) (insort_key f x ys)"
      using Cons by auto
    have "f y < f z \<or> (f y = f z \<and> y < z)" if "z \<in> set (insort_key f x ys)" for z
      using that False Cons.prems(1) by (auto simp: set_insort_key)
    then show ?thesis using False ih by auto
  qed
qed

lemma sort_key_index_order:
  fixes f :: "nat \<Rightarrow> 'k::linorder"
  assumes "sorted_wrt (<) xs"
  shows "sorted_wrt (\<lambda>i j. f i < f j \<or> (f i = f j \<and> i < j)) (sort_key f xs)"
  using assms
proof (induction xs)
  case Nil
  show ?case by simp
next
  case (Cons x xs)
  have "sorted_wrt (\<lambda>i j. f i < f j \<or> (f i = f j \<and> i < j)) (sort_key f xs)"
    using Cons by simp
  moreover have "\<forall>y\<in>set (sort_key f xs). x < y" using Cons.prems by simp
  ultimately show ?case by (simp add: insort_key_index_order)
qed

lemma ranking_sorted:
  "sorted_wrt (ranks_before ties similarities) (rev (np_argsort ties similarities))"
proof -
  have "sorted_wrt (<) [0..<length similarities]" by (simp add: sorted_wrt_iff_nth_less)
  from sort_key_index_order [OF this, of "\<lambda>i. (similarities ! i, ties similarities i)"]
  show ?thesis
    unfolding sorted_wrt_rev np_argsort_def ranks_before_def
    by (rule sorted_wrt_mono_rel [rotated]) (auto simp: less_prod_def)
qed

lemma filter_take_prefix_closed:
  assumes "sorted_wrt Q xs" and "\<And>x y. Q x y \<Longrightarrow> P y \<Longrightarrow> P x"
  shows "filter P (take n xs) = take n (filter P xs)"
  using assms(1)
proof (induction xs arbitrary: n)
  case Nil
  show ?case by simp
next
  case (Cons x xs)
  show ?case
  proof (cases n)
    case 0
    then show ?thesis by simp
  next
    case (Suc m)
    show ?thesis
    proof (cases "P x")
      case True
      then show ?thesis using Cons Suc by simp
    next
      case False
      have "\<not> P y" if "y \<in> set xs" for y
        using that False Cons.prems assms(2) by auto
      then have "filter P xs = []" by (auto simp: filter_empty_conv)
      moreover have "filter P (take m xs) = []"
        using \<open>\<And>y. y \<in> set xs \<Longrightarrow> \<not> P y\<close> by (auto simp: filter_empty_conv dest: in_set_takeD)
      ultimately show ?thesis using False Suc by simp
    qed
  qed
qed

lemma similarity_loop_ok:
  assumes "\<forall>i\<in>set idxs. i < length similarities \<and> i < length rows"
  shows "similarity_loop rows similarities idxs =
           Inr (map (\<lambda>i. make_prediction (Disease (rows ! i)) (similarities ! i * 100) (rows ! i))
                  (filter (\<lambda>i. 0 < similarities ! i) idxs))"
  using assms by (induction idxs) auto

text \<open>
  Two rows with the same similarity: when \<open>np.argsort\<close> leaves equal values in index
  order, as an insertion sort does, Common Cold, the second row of the catalog, comes
  out before Flu, the first; when it puts the later index first, Flu comes out first.
\<close>

theorem similarity_ties_follow_argsort:
  "predict_diseases_similarity
       (example_predictor [flu_row, cold_row] [1 / 2, 1 / 2] [1 / 4, 3 / 4]) ''fever, cough'' 2
     = Inr [make_prediction ''Common Cold'' 50 cold_row, make_prediction ''Flu'' 50 flu_row]
   \<and> np_argsort (tie_order (example_predictor [flu_row, cold_row] [1 / 2, 1 / 2] [1 / 4, 3 / 4]))
       [1 / 2, 1 / 2] = [0, 1]
   \<and> predict_diseases_similarity
       ((example_predictor [flu_row, cold_row] [1 / 2, 1 / 2] [1 / 4, 3 / 4])
          \<lparr>tie_order := (\<lambda>xs i. length xs - i)\<rparr>) ''fever, cough'' 2
     = Inr [make_prediction ''Flu'' 50 flu_row, make_prediction ''Common Cold'' 50 cold_row]"
  by code_simp

text \<open>
  C5, as the code has it: for \<open>top_n \<ge> 0\<close> and one similarity score per catalog row,
  \<open>predict_diseases_similarity\<close> returns the candidates of exactly the top-N rows among
  those with similarity strictly greater than 0 (as many as there are, up to \<open>top_n\<close>; every
  row left out with positive similarity ranks after every row returned), in descending
  order of similarity. Rows of equal similarity come in the reverse of the order that
  \<open>np.argsort\<close> gives them, which numpy does not specify: the order of the catalog is not
  assured.
\<close>

theorem similarity_ranking:
  assumes "length (calculate_similarity_scores hp user_symptoms) = length (df hp)"
    and "0 \<le> top_n"
  shows "\<exists>idxs.
           predict_diseases_similarity hp user_symptoms top_n =
             Inr (map (\<lambda>i. make_prediction (Disease (df hp ! i))
                             (calculate_similarity_scores hp user_symptoms ! i * 100) (df hp ! i))
                    idxs)
         \<and> distinct idxs
         \<and> (\<forall>i\<in>set idxs. i < length (df hp) \<and> 0 < calculate_similarity_scores hp user_symptoms ! i)
         \<and> length idxs =
             min (nat top_n)
               (card {i. i < length (df hp) \<and> 0 < calculate_similarity_scores hp user_symptoms ! i})
         \<and> sorted_wrt (\<lambda>i j. calculate_similarity_scores hp user_symptoms ! j
                                \<le> calculate_similarity_scores hp user_symptoms ! i) idxs
         \<and> sorted_wrt (ranks_before (tie_order hp) (calculate_similarity_scores hp user_symptoms)) idxs
         \<and> (\<forall>i j. i < length (df hp) \<and> 0 < calculate_similarity_scores hp user_symptoms ! i
                  \<and> i \<notin> set idxs \<and> j \<in> set idxs
                \<longrightarrow> ranks_before (tie_order hp) (calculate_similarity_scores hp user_symptoms) j i)"
proof -
  define sims where "sims = calculate_similarity_scores hp user_symptoms"
  define L where "L = rev (np_argsort (tie_order hp) sims)"
  define n where "n = nat top_n"
  define pos where "pos = (\<lambda>i. 0 < sims ! i)"
  define idxs where "idxs = filter pos (take n L)"
  have len: "length sims = length (df hp)" using assms(1) by (simp add: sims_def)
  have setL: "set L = {0..<length sims}" by (simp add: L_def set_np_argsort)
  have distL: "distinct L" by (simp add: L_def distinct_np_argsort)
  have sortedL: "sorted_wrt (ranks_before (tie_order hp) sims) L"
    unfolding L_def by (rule ranking_sorted)
  have top: "py_take top_n L = take n L" using assms(2) by (simp add: py_take_def n_def)
  have inr: "\<forall>i\<in>set (take n L). i < length sims \<and> i < length (df hp)"
    using setL len by (auto dest: in_set_takeD)
  have "predict_diseases_similarity hp user_symptoms top_n
          = similarity_loop (df hp) sims (py_take top_n L)"
    by (simp add: predict_diseases_similarity_def Let_def sims_def L_def)
  also have "\<dots> = similarity_loop (df hp) sims (take n L)" by (simp only: top)
  also have "\<dots> =
      Inr (map (\<lambda>i. make_prediction (Disease (df hp ! i)) (sims ! i * 100) (df hp ! i))
             (filter (\<lambda>i. 0 < sims ! i) (take n L)))"
    using inr by (rule similarity_loop_ok)
  finally have res: "predict_diseases_similarity hp user_symptoms top_n =
               Inr (map (\<lambda>i. make_prediction (Disease (df hp ! i)) (sims ! i * 100) (df hp ! i)) idxs)"
    unfolding idxs_def pos_def .
  have d: "distinct idxs" using distL by (simp add: idxs_def)
  have b: "\<forall>i\<in>set idxs. i < length (df hp) \<and> 0 < sims ! i"
    using setL len by (auto simp: idxs_def pos_def dest: in_set_takeD)
  have closed: "pos x" if "ranks_before (tie_order hp) sims x y" and "pos y" for x y
    using that by (auto simp: ranks_before_def pos_def)
  have swap: "idxs = take n (filter pos L)"
    unfolding idxs_def using sortedL closed by (rule filter_take_prefix_closed)
  have "length (filter pos L) = card ({i. pos i} \<inter> set L)"
    using distL by (rule distinct_length_filter)
  also have "{i. pos i} \<inter> set L = {i. i < length (df hp) \<and> 0 < sims ! i}"
    by (rule set_eqI) (simp add: setL len pos_def conj_commute)
  finally have l: "length idxs = min n (card {i. i < length (df hp) \<and> 0 < sims ! i})"
    by (simp add: swap min.commute)
  have s: "sorted_wrt (ranks_before (tie_order hp) sims) idxs"
    unfolding idxs_def using sortedL by (intro sorted_wrt_filter sorted_wrt_take)
  have s': "sorted_wrt (\<lambda>i j. sims ! j \<le> sims ! i) idxs"
    using s by (rule sorted_wrt_mono_rel [rotated]) (auto simp: ranks_before_def)
  have t: "ranks_before (tie_order hp) sims j i"
    if "i < length (df hp)" "0 < sims ! i" "i \<notin> set idxs" "j \<in> set idxs" for i j
  proof -
    have "i \<in> set L" using that(1) setL len by simp
    moreover have "i \<notin> set (take n L)" using that(2,3) by (simp add: idxs_def pos_def)
    ultimately have "i \<in> set (drop n L)"
      by (metis Un_iff append_take_drop_id set_append)
    moreover have "j \<in> set (take n L)" using that(4) by (simp add: idxs_def)
    moreover have "sorted_wrt (ranks_before (tie_order hp) sims) (take n L @ drop n L)"
      using sortedL by simp
    ultimately show ?thesis unfolding sorted_wrt_append by blast
  qed
  have "predict_diseases_similarity hp user_symptoms top_n =
             Inr (map (\<lambda>i. make_prediction (Disease (df hp ! i)) (sims ! i * 100) (df hp ! i)) idxs)
         \<and> distinct idxs
         \<and> (\<forall>i\<in>set idxs. i < length (df hp) \<and> 0 < sims ! i)
         \<and> length idxs = min (nat top_n) (card {i. i < length (df hp) \<and> 0 < sims ! i})
         \<and> sorted_wrt (\<lambda>i j. sims ! j \<le> sims ! i) idxs
         \<and> sorted_wrt (ranks_before (tie_order hp) sims) idxs
         \<and> (\<forall>i j. i < length (df hp) \<and> 0 < sims ! i \<and> i \<notin> set idxs \<and> j \<in> set idxs
                \<longrightarrow> ranks_before (tie_order hp) sims j i)"
    using res d b l s s' t unfolding n_def by simp
  then show ?thesis unfolding sims_def by (rule exI)
qed

theorem similarity_ranking_witness:
  "length (calculate_similarity_scores
             (example_predictor [flu_row, cold_row, flu_row2] [1 / 4, 1 / 2, 0] [1 / 4, 3 / 4])
             ''fever, cough'')
     = length (df (example_predictor [flu_row, cold_row, flu_row2] [1 / 4, 1 / 2, 0] [1 / 4, 3 / 4]))
   \<and> predict_diseases_similarity
        (example_predictor [flu_row, cold_row, flu_row2] [1 / 4, 1 / 2, 0] [1 / 4, 3 / 4])
        ''fever, cough'' 2
      = Inr [make_prediction ''Common Cold'' 50 cold_row, make_prediction ''Flu'' 25 flu_row]
   \<and> (\<exists>idxs. length idxs =
         min (nat 2)
           (card {i. i < length (df (example_predictor [flu_row, cold_row, flu_row2]
                                       [1 / 4, 1 / 2, 0] [1 / 4, 3 / 4]))
                   \<and> 0 < calculate_similarity_scores
                           (example_predictor [flu_row, cold_row, flu_row2] [1 / 4, 1 / 2, 0]
                              [1 / 4, 3 / 4]) ''fever, cough'' ! i})
         \<and> predict_diseases_similarity
             (example_predictor [flu_row, cold_row, flu_row2] [1 / 4, 1 / 2, 0] [1 / 4, 3 / 4])
             ''fever, cough'' 2 =
             Inr (map (\<lambda>i. make_prediction
                             (Disease (df (example_predictor [flu_row, cold_row, flu_row2]
                                             [1 / 4, 1 / 2, 0] [1 / 4, 3 / 4]) ! i))
                             (calculate_similarity_scores
                                (example_predictor [flu_row, cold_row, flu_row2] [1 / 4, 1 / 2, 0]
                                   [1 / 4, 3 / 4]) ''fever, cough'' ! i * 100)
                             (df (example_predictor [flu_row, cold_row, flu_row2]
                                    [1 / 4, 1 / 2, 0] [1 / 4, 3 / 4]) ! i)) idxs))"
proof -
  let ?hp = "example_predictor [flu_row, cold_row, flu_row2] [1 / 4, 1 / 2, 0] [1 / 4, 3 / 4]"
  have h: "length (calculate_similarity_scores ?hp ''fever, cough'') = length (df ?hp)"
    by code_simp
  have n: "(0::int) \<le> 2" by simp
  have v: "predict_diseases_similarity ?hp ''fever, cough'' 2
             = Inr [make_prediction ''Common Cold'' 50 cold_row, make_prediction ''Flu'' 25 flu_row]"
    by code_simp
  from similarity_ranking [OF h n] h v show ?thesis by blast
qed

section \<open>The recommendation system\<close>

subsection \<open>Severity assessment\<close>

lemma py_max_key_mem: "py_max_key f b xs \<in> set (b # xs)"
  by (induction xs arbitrary: b) auto

lemma py_max_key_ge_best: "f b \<le> f (py_max_key f b xs)"
proof (induction xs arbitrary: b)
  case Nil show ?case by simp
next
  case (Cons x xs)
  have "f b \<le> f (if f b < f x then x else b)" by simp
  also have "\<dots> \<le> f (py_max_key f (if f b < f x then x else b) xs)" by (rule Cons.IH)
  finally show ?case by simp
qed

lemma py_max_key_ge: "x \<in> set (b # xs) \<Longrightarrow> f x \<le> f (py_max_key f b xs)"
proof (induction xs arbitrary: b)
  case Nil then show ?case by simp
next
  case (Cons y ys)
  let ?b = "if f b < f y then y else b"
  have step: "py_max_key f b (y # ys) = py_max_key f ?b ys" by simp
  from Cons.prems consider "x = b" | "x = y" | "x \<in> set ys" by auto
  then show ?case
  proof cases
    case 1
    have "f b \<le> f ?b" by simp
    also have "\<dots> \<le> f (py_max_key f ?b ys)" by (rule py_max_key_ge_best)
    finally show ?thesis using 1 step by simp
  next
    case 2
    have "f y \<le> f ?b" by simp
    also have "\<dots> \<le> f (py_max_key f ?b ys)" by (rule py_max_key_ge_best)
    finally show ?thesis using 2 step by simp
  next
    case 3
    then have "x \<in> set (?b # ys)" by simp
    then have "f x \<le> f (py_max_key f ?b ys)" by (rule Cons.IH)
    then show ?thesis using step by simp
  qed
qed

lemma known_severity_action:
  "s \<in> {''Mild'', ''Moderate'', ''Severe''} \<Longrightarrow> \<exists>info. map_of severity_actions s = Some info"
  by (auto simp: severity_actions_def)

lemma severity_assessment_known:
  assumes "predictions \<noteq> []"
    and "py_max_key severity_priority (severity (hd predictions)) (map severity (tl predictions))
           \<in> {''Mild'', ''Moderate'', ''Severe''}"
  shows "\<exists>assessment. generate_severity_assessment predictions = Inr assessment
           \<and> map_of assessment ''overall_severity''
               = Some (Str (py_max_key severity_priority (severity (hd predictions))
                              (map severity (tl predictions))))"
proof -
  obtain p ps where ps: "predictions = p # ps" using assms(1) by (cases predictions) auto
  obtain info where "map_of severity_actions (py_max_key severity_priority (severity p) (map severity ps)) = Some info"
    using known_severity_action assms(2) ps by fastforce
  then show ?thesis by (simp add: generate_severity_assessment_def ps)
qed

lemma recommendations_of_assessment:
  assumes "predictions \<noteq> []" and "generate_severity_assessment predictions = Inr assessment"
  shows "\<exists>lifestyle followup.
           generate_comprehensive_recommendations predictions user_symptoms now =
             Inr [(''timestamp'', Str now),
                  (''input_symptoms'', Str user_symptoms),
                  (''severity_assessment'', Dict assessment),
                  (''lifestyle_recommendations'', StrList lifestyle),
                  (''dietary_recommendations'',
                   StrList (generate_dietary_recommendations predictions)),
                  (''self_care_tips'', StrList (generate_self_care_tips predictions)),
                  (''warning_signs'', StrList (generate_warning_signs predictions)),
                  (''followup_recommendations'', StrList followup),
                  (''disclaimer'', Dict generate_disclaimer)]"
proof -
  obtain lifestyle where l: "generate_lifestyle_recommendations predictions = Inr lifestyle"
    using assms by (simp add: generate_lifestyle_recommendations_def Let_def)
  obtain followup where f: "generate_followup_recommendations predictions = Inr followup"
    using assms(2) by (simp add: generate_followup_recommendations_def)
  show ?thesis
    using assms l f by (simp add: generate_comprehensive_recommendations_def)
qed

lemma severity_priority_le_3: "severity_priority x \<le> 3"
  by (simp add: severity_priority_def)

lemma severity_priority_3: "severity_priority x = 3 \<Longrightarrow> x = ''Severe''"
  by (simp add: severity_priority_def split: if_splits)

lemma py_max_key_severe:
  assumes "''Severe'' \<in> set (b # xs)"
  shows "py_max_key severity_priority b xs = ''Severe''"
proof -
  have "severity_priority ''Severe'' \<le> severity_priority (py_max_key severity_priority b xs)"
    using assms by (rule py_max_key_ge)
  moreover have "severity_priority ''Severe'' = 3" by (simp add: severity_priority_def)
  ultimately have "severity_priority (py_max_key severity_priority b xs) = 3"
    using severity_priority_le_3 [of "py_max_key severity_priority b xs"] by linarith
  then show ?thesis by (rule severity_priority_3)
qed

lemma severity_priority_2: "severity_priority x = 2 \<Longrightarrow> x = ''Moderate''"
  by (simp add: severity_priority_def split: if_splits)

lemma severity_priority_1: "severity_priority x = 1 \<Longrightarrow> x = ''Mild''"
  by (simp add: severity_priority_def split: if_splits)

lemma severity_priority_0:
  "x \<in> {''Mild'', ''Moderate'', ''Severe''} \<Longrightarrow> 0 < severity_priority x"
  by (auto simp: severity_priority_def)

lemma py_max_key_tier:
  assumes "t \<in> set (b # xs)" and "t \<in> {''Mild'', ''Moderate'', ''Severe''}"
  shows "py_max_key severity_priority b xs =
           (if ''Severe'' \<in> set (b # xs) then ''Severe''
            else if ''Moderate'' \<in> set (b # xs) then ''Moderate'' else ''Mild'')"
proof -
  define h where "h = py_max_key severity_priority b xs"
  have mem: "h \<in> set (b # xs)" unfolding h_def by (rule py_max_key_mem)
  have ge: "severity_priority x \<le> severity_priority h" if "x \<in> set (b # xs)" for x
    unfolding h_def using that by (rule py_max_key_ge)
  have le3: "severity_priority h \<le> 3" by (rule severity_priority_le_3)
  have pos: "0 < severity_priority h"
    using ge [OF assms(1)] severity_priority_0 [OF assms(2)] by linarith
  show ?thesis
  proof (cases "''Severe'' \<in> set (b # xs)")
    case True
    then show ?thesis using py_max_key_severe [OF True] by simp
  next
    case nosev: False
    then have "h \<noteq> ''Severe''" using mem by auto
    then have ne3: "severity_priority h \<noteq> 3" using severity_priority_3 by blast
    show ?thesis
    proof (cases "''Moderate'' \<in> set (b # xs)")
      case True
      have "severity_priority ''Moderate'' = 2" by (simp add: severity_priority_def)
      then have "2 \<le> severity_priority h" using ge [OF True] by simp
      then have "severity_priority h = 2" using le3 ne3 by linarith
      then have "h = ''Moderate''" by (rule severity_priority_2)
      then show ?thesis using nosev True by (simp add: h_def)
    next
      case False
      then have "h \<noteq> ''Moderate''" using mem by auto
      then have "severity_priority h \<noteq> 2" using severity_priority_2 by blast
      then have "severity_priority h = 1" using le3 ne3 pos by linarith
      then have "h = ''Mild''" by (rule severity_priority_1)
      then show ?thesis using nosev False by (simp add: h_def)
    qed
  qed
qed

text \<open>
  C2: for every non-empty candidate list with a candidate whose severity is a tier of the
  data model (Mild, Moderate, Severe), \<open>generate_comprehensive_recommendations\<close> returns
  a bundle whose \<open>severity_assessment.overall_severity\<close> is the highest tier of the list
  in the order Severe over Moderate over Mild: Severe when some candidate is Severe,
  otherwise Moderate when some candidate is Moderate, otherwise Mild.
\<close>

theorem overall_severity_is_maximum:
  assumes "predictions \<noteq> []"
    and "\<exists>p\<in>set predictions. severity p \<in> {''Mild'', ''Moderate'', ''Severe''}"
  shows "\<exists>bundle assessment.
           generate_comprehensive_recommendations predictions user_symptoms now = Inr bundle
         \<and> map_of bundle ''severity_assessment'' = Some (Dict assessment)
         \<and> map_of assessment ''overall_severity'' =
             Some (Str (if ''Severe'' \<in> severity ` set predictions then ''Severe''
                        else if ''Moderate'' \<in> severity ` set predictions then ''Moderate''
                        else ''Mild''))"
proof -
  obtain p ps where ps: "predictions = p # ps" using assms(1) by (cases predictions) auto
  define highest where "highest = py_max_key severity_priority (severity p) (map severity ps)"
  have img: "set (severity p # map severity ps) = severity ` set predictions" using ps by auto
  obtain t where "t \<in> set (severity p # map severity ps)"
    and "t \<in> {''Mild'', ''Moderate'', ''Severe''}"
    using assms(2) img by auto
  from py_max_key_tier [OF this]
  have hi: "highest = (if ''Severe'' \<in> severity ` set predictions then ''Severe''
                       else if ''Moderate'' \<in> severity ` set predictions then ''Moderate''
                       else ''Mild'')"
    unfolding highest_def img .
  then have known: "highest \<in> {''Mild'', ''Moderate'', ''Severe''}" by auto
  obtain assessment where a: "generate_severity_assessment predictions = Inr assessment"
    and ov: "map_of assessment ''overall_severity'' = Some (Str highest)"
    using severity_assessment_known [OF assms(1)] known ps highest_def by auto
  obtain recs where b: "generate_comprehensive_recommendations predictions user_symptoms now = Inr recs"
    and s: "map_of recs ''severity_assessment'' = Some (Dict assessment)"
    using recommendations_of_assessment [OF assms(1) a, of user_symptoms now] by auto
  show ?thesis using b s ov unfolding hi by blast
qed

theorem overall_severity_is_maximum_witness:
  "map severity [candidate ''Common Cold'' ''Mild'' ''Rest'', candidate ''Pneumonia'' ''Severe'' ''Rest'',
                 candidate ''Flu'' ''Moderate'' ''Rest''] = [''Mild'', ''Severe'', ''Moderate'']
   \<and> (\<exists>bundle assessment.
         generate_comprehensive_recommendations
           [candidate ''Common Cold'' ''Mild'' ''Rest'', candidate ''Pneumonia'' ''Severe'' ''Rest'',
            candidate ''Flu'' ''Moderate'' ''Rest''] ''fever, cough'' ''2024-01-01 10:00:00''
           = Inr bundle
       \<and> map_of bundle ''severity_assessment'' = Some (Dict assessment)
       \<and> map_of assessment ''overall_severity'' = Some (Str ''Severe''))
   \<and> (\<exists>bundle assessment.
         generate_comprehensive_recommendations
           [candidate ''Common Cold'' ''Mild'' ''Rest'', candidate ''Flu'' ''Moderate'' ''Rest'']
           ''fever, cough'' ''2024-01-01 10:00:00'' = Inr bundle
       \<and> map_of bundle ''severity_assessment'' = Some (Dict assessment)
       \<and> map_of assessment ''overall_severity'' = Some (Str ''Moderate''))"
proof -
  let ?ps = "[candidate ''Common Cold'' ''Mild'' ''Rest'', candidate ''Pneumonia'' ''Severe'' ''Rest'',
              candidate ''Flu'' ''Moderate'' ''Rest'']"
  let ?qs = "[candidate ''Common Cold'' ''Mild'' ''Rest'', candidate ''Flu'' ''Moderate'' ''Rest'']"
  have m: "map severity ?ps = [''Mild'', ''Severe'', ''Moderate'']" by (simp add: candidate_def)
  have p1: "?ps \<noteq> []" and q1: "?qs \<noteq> []" by simp_all
  have p2: "\<exists>p\<in>set ?ps. severity p \<in> {''Mild'', ''Moderate'', ''Severe''}"
    by (simp add: candidate_def)
  have q2: "\<exists>p\<in>set ?qs. severity p \<in> {''Mild'', ''Moderate'', ''Severe''}"
    by (simp add: candidate_def)
  have ps: "(if ''Severe'' \<in> severity ` set ?ps then ''Severe''
             else if ''Moderate'' \<in> severity ` set ?ps then ''Moderate'' else ''Mild'') = ''Severe''"
    by (simp add: candidate_def)
  have qs: "(if ''Severe'' \<in> severity ` set ?qs then ''Severe''
             else if ''Moderate'' \<in> severity ` set ?qs then ''Moderate'' else ''Mild'') = ''Moderate''"
    by (simp add: candidate_def)
  note a = overall_severity_is_maximum [OF p1 p2, of "''fever, cough''" "''2024-01-01 10:00:00''"]
  note b = overall_severity_is_maximum [OF q1 q2, of "''fever, cough''" "''2024-01-01 10:00:00''"]
  show ?thesis using m a b unfolding ps qs by blast
qed

text \<open>A list without any candidate of a listed severity raises the KeyError.\<close>

lemma unlisted_severities_raise:
  assumes "predictions \<noteq> []"
    and "\<forall>p\<in>set predictions. severity p \<notin> {''Mild'', ''Moderate'', ''Severe''}"
  shows "generate_comprehensive_recommendations predictions user_symptoms now = Inl KeyError"
proof -
  obtain p ps where ps: "predictions = p # ps" using assms(1) by (cases predictions) auto
  define highest where "highest = py_max_key severity_priority (severity p) (map severity ps)"
  have "highest \<in> set (severity p # map severity ps)"
    unfolding highest_def by (rule py_max_key_mem)
  then obtain q where "q \<in> set predictions" and "highest = severity q" using ps by auto
  then have "highest \<notin> {''Mild'', ''Moderate'', ''Severe''}"
    using bspec [OF assms(2), of q] by simp
  then have "map_of severity_actions highest = None" by (simp add: severity_actions_def)
  then have "generate_severity_assessment predictions = Inl KeyError"
    by (simp add: generate_severity_assessment_def ps highest_def)
  then show ?thesis using assms(1) by (simp add: generate_comprehensive_recommendations_def)
qed

subsection \<open>Self-care tips\<close>

lemma self_care_loop_severe:
  "\<exists>p\<in>set predictions. severity p = ''Severe''
     \<Longrightarrow> self_care_loop predictions tips = [seek_attention_tip]"
  by (induction predictions arbitrary: tips) (auto simp: Let_def)

lemma dict_fromkeys_single: "dict_fromkeys [x] = [x]"
  by (simp add: dict_fromkeys_def)

text \<open>
  C6: when some candidate has severity Severe, the bundle's \<open>self_care_tips\<close> is the
  single seek-immediate-medical-attention entry, whatever tips the disease names select.
\<close>

theorem severe_candidate_single_self_care_tip:
  assumes "\<exists>p\<in>set predictions. severity p = ''Severe''"
  shows "\<exists>bundle.
           generate_comprehensive_recommendations predictions user_symptoms now = Inr bundle
         \<and> map_of bundle ''self_care_tips'' = Some (StrList [seek_attention_tip])"
proof -
  from assms have ne: "predictions \<noteq> []" by auto
  then obtain p ps where ps: "predictions = p # ps" by (cases predictions) auto
  have "''Severe'' \<in> set (severity p # map severity ps)" using assms ps by force
  then have "py_max_key severity_priority (severity p) (map severity ps) = ''Severe''"
    by (rule py_max_key_severe)
  then have "py_max_key severity_priority (severity (hd predictions))
               (map severity (tl predictions)) \<in> {''Mild'', ''Moderate'', ''Severe''}"
    using ps by simp
  from severity_assessment_known [OF ne this]
  obtain assessment where a: "generate_severity_assessment predictions = Inr assessment"
    by blast
  have t: "generate_self_care_tips predictions = [seek_attention_tip]"
    using ne self_care_loop_severe [OF assms, of "[]"]
    by (simp add: generate_self_care_tips_def dict_fromkeys_single)
  from recommendations_of_assessment [OF ne a, of user_symptoms now] t
  show ?thesis by auto
qed

theorem severe_candidate_single_self_care_tip_witness:
  "(\<exists>p\<in>set [candidate ''Flu'' ''Moderate'' ''Rest'', candidate ''Stomach Flu'' ''Severe'' ''Rest'',
               candidate ''Migraine'' ''Mild'' ''Rest'']. severity p = ''Severe'')
   \<and> (\<exists>bundle.
         generate_comprehensive_recommendations
           [candidate ''Flu'' ''Moderate'' ''Rest'', candidate ''Stomach Flu'' ''Severe'' ''Rest'',
            candidate ''Migraine'' ''Mild'' ''Rest''] ''fever, nausea'' ''2024-01-01 10:00:00''
           = Inr bundle
       \<and> map_of bundle ''self_care_tips'' = Some (StrList [seek_attention_tip]))"
proof -
  have h: "\<exists>p\<in>set [candidate ''Flu'' ''Moderate'' ''Rest'',
                     candidate ''Stomach Flu'' ''Severe'' ''Rest'',
                     candidate ''Migraine'' ''Mild'' ''Rest'']. severity p = ''Severe''"
    by (simp add: candidate_def)
  from severe_candidate_single_self_care_tip
         [OF h, of "''fever, nausea''" "''2024-01-01 10:00:00''"] h
  show ?thesis by blast
qed

subsection \<open>No candidates\<close>

text \<open>
  C7: for every symptom text, an empty candidate list gives, without raising, a bundle
  with an \<open>error\<close> key and without a \<open>severity_assessment\<close> key.
\<close>

theorem empty_candidates_error_bundle:
  "\<exists>bundle. generate_comprehensive_recommendations [] user_symptoms now = Inr bundle
     \<and> ''error'' \<in> fst ` set bundle \<and> ''severity_assessment'' \<notin> fst ` set bundle"
  by (simp add: generate_comprehensive_recommendations_def)

subsection \<open>Lifestyle recommendations\<close>

text \<open>
  C8 does not hold of the code: the loop looks the bare phrase up in a list that holds
  the phrases behind their marker, so the test for a phrase seen before never succeeds
  and a precaution shared by two candidates is listed twice.
\<close>

theorem lifestyle_shared_precaution_twice:
  "generate_lifestyle_recommendations
     [candidate ''Flu'' ''Mild'' ''Rest, stay hydrated'', candidate ''Common Cold'' ''Mild'' ''Rest'']
   = Inr ([lifestyle_marker @ ''Rest'', lifestyle_marker @ ''stay hydrated'',
           lifestyle_marker @ ''Rest''] @ take 4 general_health_tips)"
  by code_simp

subsection \<open>Warning signs\<close>

lemma cardiac_warnings_distinct:
  "dict_fromkeys (cardiac_warning # take 5 general_warning_signs)
     = cardiac_warning # take 5 general_warning_signs"
  by code_simp

lemma stroke_not_in_cardiac_warnings:
  "stroke_warning \<notin> set (cardiac_warning # take 5 general_warning_signs)"
  by code_simp

text \<open>
  The keyword rules are one \<open>if\<close>/\<open>elif\<close> chain: "Cardiac Stroke" gets the cardiac warning
  and not the stroke warning.
\<close>

theorem cardiac_stroke_only_cardiac_warning:
  "generate_warning_signs [candidate ''Cardiac Stroke'' ''Severe'' ''Rest'']
     = cardiac_warning # take 5 general_warning_signs
   \<and> stroke_warning \<notin> set (generate_warning_signs [candidate ''Cardiac Stroke'' ''Severe'' ''Rest''])"
  by code_simp

text \<open>
  C9, as the code has it: a candidate whose lowercased disease name contains "heart" or
  "cardiac" adds the cardiac warning only, also when the name contains "stroke" as well;
  the rules are tried in the order heart/cardiac, stroke, asthma, diabetes, and the first
  that matches is the only one applied to that candidate.
\<close>

theorem cardiac_rule_first:
  assumes "py_in ''heart'' (lower (disease p)) \<or> py_in ''cardiac'' (lower (disease p))"
  shows "add_specific_warning p ws = ws @ [cardiac_warning]
       \<and> generate_warning_signs [p] = cardiac_warning # take 5 general_warning_signs
       \<and> stroke_warning \<notin> set (generate_warning_signs [p])"
proof -
  have a: "add_specific_warning p ws = ws @ [cardiac_warning]" for ws
    using assms by (auto simp: add_specific_warning_def Let_def)
  have "generate_warning_signs [p] = dict_fromkeys (cardiac_warning # take 5 general_warning_signs)"
    by (simp add: generate_warning_signs_def a [of "[]"] del: take_Cons_numeral)
  then have g: "generate_warning_signs [p] = cardiac_warning # take 5 general_warning_signs"
    by (simp only: cardiac_warnings_distinct)
  show ?thesis using a g stroke_not_in_cardiac_warnings by simp
qed

theorem cardiac_rule_first_witness:
  "(py_in ''heart'' (lower (disease (candidate ''Cardiac Stroke'' ''Severe'' ''Rest'')))
      \<or> py_in ''cardiac'' (lower (disease (candidate ''Cardiac Stroke'' ''Severe'' ''Rest''))))
   \<and> py_in ''stroke'' (lower (disease (candidate ''Cardiac Stroke'' ''Severe'' ''Rest'')))
   \<and> add_specific_warning (candidate ''Cardiac Stroke'' ''Severe'' ''Rest'') [] = [cardiac_warning]"
proof -
  have h: "py_in ''heart'' (lower (disease (candidate ''Cardiac Stroke'' ''Severe'' ''Rest'')))
      \<or> py_in ''cardiac'' (lower (disease (candidate ''Cardiac Stroke'' ''Severe'' ''Rest'')))"
    by code_simp
  have s: "py_in ''stroke'' (lower (disease (candidate ''Cardiac Stroke'' ''Severe'' ''Rest'')))"
    by code_simp
  from cardiac_rule_first [OF h, of "[]"] h s show ?thesis by simp
qed

end
